theory Spec2Isabelle
  imports Complex_Main
begin

section \<open>Numbers\<close>

text \<open>
  The engine computes with JavaScript numbers (IEEE 754 binary64). Three readings are used.

  \<^item> Masses, concentrations, rates and times of the simulation are modelled as exact reals:
    the claims about them are order-theoretic (which candidate is smallest, when a guard
    fires, which bounds hold) and are stated for the arithmetic without rounding. A
    division by zero is outside that reading.

  \<^item> The values that come from the form are whatever \<open>parseFloat\<close> made of a field: a
    number, or NaN for an empty field. The dose, the target concentration and the
    patient's age, weight and height are therefore of the type \<open>js_number\<close>, which has NaN
    and the two infinities beside the numbers; a comparison with NaN is false.

  \<^item> Where a test depends on rounding, the arithmetic is binary64 itself: a decimal literal
    denotes the nearest double and an operation is the exact result rounded to the nearest
    double, ties to even. This is the reading of the loop that builds the candidate grid
    (\<open>rate += 0.1\<close> while \<open>rate <= 4.0\<close>) and of the BMI that \<open>validate\<close> compares
    with its limits. The number of passes of the protocol loop, the floor of a quotient,
    is checked in the first and in the third reading.
\<close>

subsection \<open>Round to nearest binary64, ties to even\<close>

text \<open>Nearest integer to a non-negative real, a tie going to the even neighbour.\<close>

definition b64_half_even :: "real \<Rightarrow> int" where
  "b64_half_even x =
     (let f = \<lfloor>x\<rfloor>; r = x - of_int f
      in if r < 1/2 then f else if 1/2 < r then f + 1 else if even f then f else f + 1)"

text \<open>
  \<open>b64_scale x e\<close> brings a positive \<open>x\<close> into the significand range
  \<open>[2^52, 2^53)\<close> by doubling or halving, counting the binary exponent in \<open>e\<close>. The
  exponent stops at \<open>-1074\<close> (subnormal numbers keep that exponent) and at \<open>971\<close>
  (beyond it binary64 overflows; such values do not occur here).
\<close>

function b64_scale :: "real \<Rightarrow> int \<Rightarrow> real \<times> int" where
  "b64_scale x e =
     (if x < 4503599627370496 \<and> - 1074 < e then b64_scale (2 * x) (e - 1)
      else if 9007199254740992 \<le> x \<and> e < 971 then b64_scale (x / 2) (e + 1)
      else (x, e))"
  by pat_completeness auto
termination
  by (relation "measures [\<lambda>(x, e). if x < 4503599627370496 then 1 else 0,
                          \<lambda>(x, e). if x < 4503599627370496 then nat (e + 1074)
                                   else nat (971 - e)]")
     auto

text \<open>
  The nearest double: the scaled magnitude is rounded to an integer significand and scaled
  back. The scaling starts at exponent \<open>-52\<close>, where a magnitude in \<open>[1, 2)\<close> already
  has its significand in range.
\<close>

definition b64_round :: "real \<Rightarrow> real" where
  "b64_round x =
     (case b64_scale (\<bar>x\<bar> * 4503599627370496) (- 52) of
        (m, e) \<Rightarrow> sgn x * of_int (b64_half_even m) * 2 powi e)"

definition b64_add :: "real \<Rightarrow> real \<Rightarrow> real" where
  "b64_add x y = b64_round (x + y)"

definition b64_div :: "real \<Rightarrow> real \<Rightarrow> real" where
  "b64_div x y = b64_round (x / y)"

definition b64_mul :: "real \<Rightarrow> real \<Rightarrow> real" where
  "b64_mul x y = b64_round (x * y)"

subsection \<open>Numbers with NaN and the infinities\<close>

text \<open>
  A JavaScript number: a finite number, an infinity or NaN. The comparison \<open><\<close> is false
  as soon as one side is NaN (and \<open>a > b\<close> is \<open>b < a\<close>). The arithmetic below is exact on
  finite numbers and follows IEEE 754 on the special values; a zero is read as \<open>+0\<close>.
  \<open>js_round\<close> rounds a finite number to the nearest double (a result beyond the largest
  double, which binary64 turns into an infinity, does not occur in what follows).
\<close>

datatype js_number = Num real | PosInf | NegInf | NaN

definition js_lt :: "js_number \<Rightarrow> js_number \<Rightarrow> bool" where
  "js_lt a b =
     (case a of
        Num x \<Rightarrow> (case b of Num y \<Rightarrow> x < y | PosInf \<Rightarrow> True | NegInf \<Rightarrow> False | NaN \<Rightarrow> False)
      | PosInf \<Rightarrow> False
      | NegInf \<Rightarrow> (case b of Num y \<Rightarrow> True | PosInf \<Rightarrow> True | NegInf \<Rightarrow> False | NaN \<Rightarrow> False)
      | NaN \<Rightarrow> False)"

definition js_sub :: "js_number \<Rightarrow> js_number \<Rightarrow> js_number" where
  "js_sub a b =
     (case a of
        Num x \<Rightarrow> (case b of Num y \<Rightarrow> Num (x - y) | PosInf \<Rightarrow> NegInf | NegInf \<Rightarrow> PosInf
                   | NaN \<Rightarrow> NaN)
      | PosInf \<Rightarrow> (case b of Num y \<Rightarrow> PosInf | PosInf \<Rightarrow> NaN | NegInf \<Rightarrow> PosInf | NaN \<Rightarrow> NaN)
      | NegInf \<Rightarrow> (case b of Num y \<Rightarrow> NegInf | PosInf \<Rightarrow> NegInf | NegInf \<Rightarrow> NaN | NaN \<Rightarrow> NaN)
      | NaN \<Rightarrow> NaN)"

definition js_abs :: "js_number \<Rightarrow> js_number" where
  "js_abs a = (case a of Num x \<Rightarrow> Num \<bar>x\<bar> | PosInf \<Rightarrow> PosInf | NegInf \<Rightarrow> PosInf | NaN \<Rightarrow> NaN)"

definition js_mul :: "js_number \<Rightarrow> js_number \<Rightarrow> js_number" where
  "js_mul a b =
     (case a of
        Num x \<Rightarrow>
          (case b of
             Num y \<Rightarrow> Num (x * y)
           | PosInf \<Rightarrow> (if x = 0 then NaN else if 0 < x then PosInf else NegInf)
           | NegInf \<Rightarrow> (if x = 0 then NaN else if 0 < x then NegInf else PosInf)
           | NaN \<Rightarrow> NaN)
      | PosInf \<Rightarrow>
          (case b of
             Num y \<Rightarrow> (if y = 0 then NaN else if 0 < y then PosInf else NegInf)
           | PosInf \<Rightarrow> PosInf | NegInf \<Rightarrow> NegInf | NaN \<Rightarrow> NaN)
      | NegInf \<Rightarrow>
          (case b of
             Num y \<Rightarrow> (if y = 0 then NaN else if 0 < y then NegInf else PosInf)
           | PosInf \<Rightarrow> NegInf | NegInf \<Rightarrow> PosInf | NaN \<Rightarrow> NaN)
      | NaN \<Rightarrow> NaN)"

definition js_div :: "js_number \<Rightarrow> js_number \<Rightarrow> js_number" where
  "js_div a b =
     (case a of
        Num x \<Rightarrow>
          (case b of
             Num y \<Rightarrow> (if y = 0 then (if x = 0 then NaN else if 0 < x then PosInf else NegInf)
                       else Num (x / y))
           | PosInf \<Rightarrow> Num 0 | NegInf \<Rightarrow> Num 0 | NaN \<Rightarrow> NaN)
      | PosInf \<Rightarrow>
          (case b of Num y \<Rightarrow> (if y < 0 then NegInf else PosInf)
           | PosInf \<Rightarrow> NaN | NegInf \<Rightarrow> NaN | NaN \<Rightarrow> NaN)
      | NegInf \<Rightarrow>
          (case b of Num y \<Rightarrow> (if y < 0 then PosInf else NegInf)
           | PosInf \<Rightarrow> NaN | NegInf \<Rightarrow> NaN | NaN \<Rightarrow> NaN)
      | NaN \<Rightarrow> NaN)"

definition js_round :: "js_number \<Rightarrow> js_number" where
  "js_round a = (case a of Num x \<Rightarrow> Num (b64_round x) | PosInf \<Rightarrow> PosInf | NegInf \<Rightarrow> NegInf
                 | NaN \<Rightarrow> NaN)"

section \<open>MasuiModelConstants\<close>

text \<open>The constants as the decimal literals of the source.\<close>

definition THETA_1 :: real where "THETA_1 = 3.57"
definition THETA_2 :: real where "THETA_2 = 11.3"
definition THETA_3 :: real where "THETA_3 = 27.2"
definition THETA_4 :: real where "THETA_4 = 1.03"
definition THETA_5 :: real where "THETA_5 = 1.10"
definition THETA_6 :: real where "THETA_6 = 0.401"
definition THETA_8 :: real where "THETA_8 = 0.308"
definition THETA_9 :: real where "THETA_9 = 0.146"
definition THETA_10 :: real where "THETA_10 = - 0.184"

definition STANDARD_WEIGHT :: real where "STANDARD_WEIGHT = 67.3"
definition STANDARD_AGE :: real where "STANDARD_AGE = 54.0"

definition DEFAULT_TARGET_REACH_TIME :: real where "DEFAULT_TARGET_REACH_TIME = 20.0"
definition DEFAULT_UPPER_THRESHOLD_RATIO :: real where "DEFAULT_UPPER_THRESHOLD_RATIO = 1.2"
definition OPTIMIZED_REDUCTION_FACTOR :: real where "OPTIMIZED_REDUCTION_FACTOR = 0.70"
definition SIMULATION_DURATION :: real where "SIMULATION_DURATION = 180.0"
definition TIME_STEP :: real where "TIME_STEP = 0.1"

definition MIN_INFUSION_RATE :: real where "MIN_INFUSION_RATE = 0.1"
definition MAX_INFUSION_RATE :: real where "MAX_INFUSION_RATE = 6.0"
definition MIN_BOLUS_DOSE :: real where "MIN_BOLUS_DOSE = 1.0"
definition MAX_BOLUS_DOSE :: real where "MAX_BOLUS_DOSE = 15.0"

definition OPTIMIZATION_STEP :: real where "OPTIMIZATION_STEP = 0.1"
definition OPTIMIZATION_MIN_RATE :: real where "OPTIMIZATION_MIN_RATE = 0.3"
definition OPTIMIZATION_MAX_RATE :: real where "OPTIMIZATION_MAX_RATE = 4.0"

section \<open>Patient\<close>

text \<open>
  A JavaScript string is a sequence of UTF-16 code units; \<open>trim\<close> removes the white space
  and line terminators of ECMAScript from both ends.
\<close>

type_synonym js_string = "nat list"

definition js_whitespace :: "nat \<Rightarrow> bool" where
  "js_whitespace c =
     (c \<in> {9, 10, 11, 12, 13, 32, 160, 5760, 8232, 8233, 8239, 8287, 12288, 65279}
      \<or> (8192 \<le> c \<and> c \<le> 8202))"

definition js_trim :: "js_string \<Rightarrow> js_string" where
  "js_trim s = rev (dropWhile js_whitespace (rev (dropWhile js_whitespace s)))"

record patient =
  patientId :: js_string
  age :: real
  weight :: real
  height :: real
  sex :: real
  asaPS :: real

text \<open>
  The record above is the patient as the simulation reads it, with real fields. The
  \<open>Patient\<close> object that the form constructs and \<open>validate\<close> inspects holds age, weight
  and height as \<open>parseFloat\<close> delivered them.
\<close>

record js_patient =
  enteredId :: js_string
  enteredAge :: js_number
  enteredWeight :: js_number
  enteredHeight :: js_number
  enteredSex :: real
  enteredAsaPS :: real

definition numeric_patient :: "js_patient \<Rightarrow> patient option" where
  "numeric_patient p =
     (case (enteredAge p, enteredWeight p, enteredHeight p) of
        (Num a, Num w, Num h) \<Rightarrow>
          Some \<lparr>patientId = enteredId p, age = a, weight = w, height = h,
                sex = enteredSex p, asaPS = enteredAsaPS p\<rparr>
      | _ \<Rightarrow> None)"

text \<open>
  \<open>weight / Math.pow(height / 100, 2)\<close> in binary64: each of the three operations rounds.
  \<open>Math.pow\<close> with the exponent 2 is taken as the correctly rounded square.
\<close>

definition getBMI :: "js_patient \<Rightarrow> js_number" where
  "getBMI p =
     (let metres = js_round (js_div (enteredHeight p) (Num 100));
          squared = js_round (js_mul metres metres)
      in js_round (js_div (enteredWeight p) squared))"

text \<open>The four messages of \<open>validate\<close>, without their wording.\<close>

datatype validation_error =
  MissingPatientId | AgeOutOfRange | WeightOutOfRange | BmiOutOfRange

record validation =
  isValid :: bool
  errors :: "validation_error list"

definition validate :: "js_patient \<Rightarrow> validation" where
  "validate p =
     (let e0 = [];
          e1 = (if enteredId p = [] \<or> length (js_trim (enteredId p)) = 0
                then e0 @ [MissingPatientId] else e0);
          e2 = (if js_lt (enteredAge p) (Num 18) \<or> js_lt (Num 80) (enteredAge p)
                then e1 @ [AgeOutOfRange] else e1);
          e3 = (if js_lt (enteredWeight p) (Num 40.0) \<or> js_lt (Num 120.0) (enteredWeight p)
                then e2 @ [WeightOutOfRange] else e2);
          bmi = getBMI p;
          e4 = (if js_lt bmi (Num 16.0) \<or> js_lt (Num 40.0) bmi
                then e3 @ [BmiOutOfRange] else e3)
      in \<lparr>isValid = (length e4 = 0), errors = e4\<rparr>)"

section \<open>PKParameters\<close>

record pk_parameters =
  v1 :: real
  v2 :: real
  v3 :: real
  cl :: real
  q2 :: real
  q3 :: real
  ke0 :: real

definition getK10 :: "pk_parameters \<Rightarrow> real" where "getK10 pk = cl pk / v1 pk"
definition getK12 :: "pk_parameters \<Rightarrow> real" where "getK12 pk = q2 pk / v1 pk"
definition getK21 :: "pk_parameters \<Rightarrow> real" where "getK21 pk = q2 pk / v2 pk"
definition getK13 :: "pk_parameters \<Rightarrow> real" where "getK13 pk = q3 pk / v1 pk"
definition getK31 :: "pk_parameters \<Rightarrow> real" where "getK31 pk = q3 pk / v3 pk"

section \<open>PKParameterCalculator\<close>

text \<open>
  \<open>MasuiKe0Calculator.calculateKe0\<close> is not part of the sources at hand; the calculator
  takes it as the parameter \<open>calculateKe0\<close> (age, weight, height, sex, ASA class to ke0).
\<close>

definition calculatePKParameters ::
  "(real \<Rightarrow> real \<Rightarrow> real \<Rightarrow> real \<Rightarrow> real \<Rightarrow> real) \<Rightarrow> patient \<Rightarrow> pk_parameters" where
  "calculatePKParameters calculateKe0 p =
     (let weightRatio = weight p / STANDARD_WEIGHT;
          ageRatio = age p / STANDARD_AGE;
          V1 = THETA_1 * (weightRatio powr 0.75) * (1 + THETA_8 * sex p);
          V2 = THETA_2 * (weightRatio powr THETA_4) * (1 + THETA_9 * (ageRatio - 1));
          V3 = THETA_3 * (weightRatio powr THETA_5);
          CL = THETA_6 * (weightRatio powr 0.75) * (1 + THETA_10 * asaPS p);
          Q2 = 0.8 * CL;
          Q3 = 0.3 * CL;
          KE0 = calculateKe0 (age p) (weight p) (height p) (sex p) (asaPS p)
      in \<lparr>v1 = V1, v2 = V2, v3 = V3, cl = CL, q2 = Q2, q3 = Q3, ke0 = KE0\<rparr>)"

section \<open>BolusOptimizer\<close>

record compartments =
  a1 :: real
  a2 :: real
  a3 :: real

record bolus_state = compartments +
  plasmaConc :: real
  effectSiteConc :: real

definition calculateBolusInitialState :: "pk_parameters \<Rightarrow> real \<Rightarrow> bolus_state" where
  "calculateBolusInitialState pk bolusDoseMg =
     (let initialA1 = bolusDoseMg;
          initialPlasmaConc = initialA1 / v1 pk
      in \<lparr>a1 = initialA1, a2 = 0.0, a3 = 0.0,
          plasmaConc = initialPlasmaConc, effectSiteConc = 0.0\<rparr>)"

record derivative =
  da1dt :: real
  da2dt :: real
  da3dt :: real

definition derivatives :: "pk_parameters \<Rightarrow> real \<Rightarrow> compartments \<Rightarrow> derivative" where
  "derivatives pk infusionRateMgMin s =
     \<lparr>da1dt = infusionRateMgMin - (getK10 pk + getK12 pk + getK13 pk) * a1 s
               + getK21 pk * a2 s + getK31 pk * a3 s,
      da2dt = getK12 pk * a1 s - getK21 pk * a2 s,
      da3dt = getK13 pk * a1 s - getK31 pk * a3 s\<rparr>"

definition updateSystemStateRK4 ::
  "pk_parameters \<Rightarrow> compartments \<Rightarrow> real \<Rightarrow> real \<Rightarrow> compartments" where
  "updateSystemStateRK4 pk state infusionRateMgMin dt =
     (let k1 = derivatives pk infusionRateMgMin state;
          k2 = derivatives pk infusionRateMgMin
                 \<lparr>a1 = a1 state + 0.5 * dt * da1dt k1,
                  a2 = a2 state + 0.5 * dt * da2dt k1,
                  a3 = a3 state + 0.5 * dt * da3dt k1\<rparr>;
          k3 = derivatives pk infusionRateMgMin
                 \<lparr>a1 = a1 state + 0.5 * dt * da1dt k2,
                  a2 = a2 state + 0.5 * dt * da2dt k2,
                  a3 = a3 state + 0.5 * dt * da3dt k2\<rparr>;
          k4 = derivatives pk infusionRateMgMin
                 \<lparr>a1 = a1 state + dt * da1dt k3,
                  a2 = a2 state + dt * da2dt k3,
                  a3 = a3 state + dt * da3dt k3\<rparr>
      in \<lparr>a1 = a1 state + (dt / 6.0) * (da1dt k1 + 2 * da1dt k2 + 2 * da1dt k3 + da1dt k4),
          a2 = a2 state + (dt / 6.0) * (da2dt k1 + 2 * da2dt k2 + 2 * da2dt k3 + da2dt k4),
          a3 = a3 state + (dt / 6.0) * (da3dt k1 + 2 * da3dt k2 + 2 * da3dt k3 + da3dt k4)\<rparr>)"

text \<open>
  The body of the loop of \<open>simulateBolusAndContinuous\<close>: the effect site is advanced from
  the plasma concentration of the state before the step, then the compartments by RK4.
\<close>

definition bolus_step ::
  "pk_parameters \<Rightarrow> real \<Rightarrow> compartments \<times> real \<Rightarrow> compartments \<times> real" where
  "bolus_step pk infusionRateMgMin sc =
     (case sc of (state, currentCe) \<Rightarrow>
        let plasma = a1 state / v1 pk;
            dCedt = ke0 pk * (plasma - currentCe)
        in (updateSystemStateRK4 pk state infusionRateMgMin TIME_STEP,
            currentCe + TIME_STEP * dCedt))"

primrec bolus_loop ::
  "pk_parameters \<Rightarrow> real \<Rightarrow> nat \<Rightarrow> compartments \<times> real \<Rightarrow> compartments \<times> real" where
  "bolus_loop pk infusionRateMgMin 0 sc = sc"
| "bolus_loop pk infusionRateMgMin (Suc n) sc =
     bolus_loop pk infusionRateMgMin n (bolus_step pk infusionRateMgMin sc)"

definition simulateBolusAndContinuous ::
  "patient \<Rightarrow> pk_parameters \<Rightarrow> real \<Rightarrow> real \<Rightarrow> real \<Rightarrow> real" where
  "simulateBolusAndContinuous pat pk bolusDoseMg continuousRate targetTime =
     (let bolusState = calculateBolusInitialState pk bolusDoseMg;
          state = \<lparr>a1 = a1 bolusState, a2 = a2 bolusState, a3 = a3 bolusState\<rparr>;
          currentCe = effectSiteConc bolusState;
          infusionRateMgMin = (continuousRate * weight pat) / 60.0;
          numSteps = nat \<lfloor>targetTime / TIME_STEP\<rfloor>
      in snd (bolus_loop pk infusionRateMgMin numSteps (state, currentCe)))"

subsection \<open>The candidate grid\<close>

text \<open>
  \<open>for (let rate = 0.3; rate <= 4.0; rate += 0.1) testRates.push(rate)\<close>, in binary64.
  The loop has no bound of its own, so it is a partial function: \<open>None\<close> stands for a loop
  that does not end.
\<close>

partial_function (option) testRates_loop :: "real \<Rightarrow> real list \<Rightarrow> real list option" where
  "testRates_loop rate testRates =
     (if rate \<le> b64_round OPTIMIZATION_MAX_RATE
      then testRates_loop (b64_add rate (b64_round OPTIMIZATION_STEP)) (testRates @ [rate])
      else Some testRates)"

definition testRates :: "real list option" where
  "testRates = testRates_loop (b64_round OPTIMIZATION_MIN_RATE) []"

subsection \<open>The scan\<close>

text \<open>
  \<open>simulateBolusAndContinuous\<close> for a dose that need not be a number. A NaN dose makes the
  central mass NaN, and with it the plasma concentration and the effect-site concentration
  of every step; without a step the result is the initial 0. For an infinite dose the
  result of a step is an infinity or NaN, depending on the signs of the parameters; it is
  written NaN here (in either case its error is below no incumbent).
\<close>

definition simulateBolusAndContinuous_js ::
  "patient \<Rightarrow> pk_parameters \<Rightarrow> js_number \<Rightarrow> real \<Rightarrow> real \<Rightarrow> js_number" where
  "simulateBolusAndContinuous_js pat pk bolusDoseMg continuousRate targetTime =
     (case bolusDoseMg of
        Num b \<Rightarrow> Num (simulateBolusAndContinuous pat pk b continuousRate targetTime)
      | PosInf \<Rightarrow> (if nat \<lfloor>targetTime / TIME_STEP\<rfloor> = 0 then Num 0 else NaN)
      | NegInf \<Rightarrow> (if nat \<lfloor>targetTime / TIME_STEP\<rfloor> = 0 then Num 0 else NaN)
      | NaN \<Rightarrow> (if nat \<lfloor>targetTime / TIME_STEP\<rfloor> = 0 then Num 0 else NaN))"

record optimization_entry =
  rate :: real
  ceAtTarget :: js_number
  error :: js_number
  relativeError :: js_number

text \<open>The incumbent of the scan; it starts as rate 1.0 with the error \<open>Infinity\<close>.\<close>

record scan_state =
  bestRate :: real
  bestError :: js_number
  optimizationResults :: "optimization_entry list"

fun scan_rates ::
  "patient \<Rightarrow> pk_parameters \<Rightarrow> js_number \<Rightarrow> js_number \<Rightarrow> real \<Rightarrow> real list \<Rightarrow> scan_state
     \<Rightarrow> scan_state"
  where
  "scan_rates pat pk bolusDoseMg targetCe targetReachTime [] st = st"
| "scan_rates pat pk bolusDoseMg targetCe targetReachTime (testRate # rest) st =
     (let ce = simulateBolusAndContinuous_js pat pk bolusDoseMg testRate targetReachTime;
          err = js_abs (js_sub ce targetCe);
          rel = js_mul (js_div err targetCe) (Num 100);
          pushed = st\<lparr>optimizationResults := optimizationResults st @
                     [\<lparr>rate = testRate, ceAtTarget = ce, error = err, relativeError = rel\<rparr>]\<rparr>;
          st' = (if js_lt err (bestError pushed)
                 then pushed\<lparr>bestError := err, bestRate := testRate\<rparr>
                 else pushed)
      in scan_rates pat pk bolusDoseMg targetCe targetReachTime rest st')"

record optimization_result =
  optimalRate :: real
  predictedCe :: js_number
  opt_error :: js_number
  opt_relativeError :: js_number
  allResults :: "optimization_entry list"

definition optimizeContinuousRate ::
  "patient \<Rightarrow> pk_parameters \<Rightarrow> js_number \<Rightarrow> js_number \<Rightarrow> real
     \<Rightarrow> optimization_result option" where
  "optimizeContinuousRate pat pk bolusDoseMg targetCe targetReachTime =
     (case testRates of
        None \<Rightarrow> None
      | Some rates \<Rightarrow>
          let final = scan_rates pat pk bolusDoseMg targetCe targetReachTime rates
                        \<lparr>bestRate = 1.0, bestError = PosInf, optimizationResults = []\<rparr>;
              predicted = simulateBolusAndContinuous_js pat pk bolusDoseMg (bestRate final)
                            targetReachTime
          in Some \<lparr>optimalRate = bestRate final,
                   predictedCe = predicted,
                   opt_error = bestError final,
                   opt_relativeError = js_mul (js_div (bestError final) targetCe) (Num 100),
                   allResults = optimizationResults final\<rparr>)"

section \<open>BolusThresholdSimulator\<close>

record threshold_params =
  targetCe :: real
  upperThresholdRatio :: real
  reductionFactor :: real

record sample =
  time :: real
  ce :: real
  plasma :: real
  infusionRate :: real
  sampleTargetCe :: real
  upperThreshold :: real
  adjustmentNumber :: nat
  isBolus :: bool
  timeSinceLastAdjustment :: real

record adjustment =
  eventTime :: real
  oldRate :: real
  newRate :: real
  ceAtEvent :: real
  reductionPercent :: real
  sequenceNumber :: nat

text \<open>The variables of \<open>simulateCompleteProtocol\<close> that its loop updates.\<close>

record loop_state =
  state :: compartments
  currentCe :: real
  currentRate :: real
  timeSeriesData :: "sample list"
  dosageAdjustments :: "adjustment list"
  lastAdjustmentTime :: real
  adjustmentCount :: nat

definition minimumInterval :: real where "minimumInterval = 5.0"

definition numSteps :: nat where
  "numSteps = nat \<lfloor>SIMULATION_DURATION / TIME_STEP\<rfloor> + 1"

text \<open>The guard of the threshold reduction, on the variables as they stand when it is tested.\<close>

definition reduction_due :: "threshold_params \<Rightarrow> real \<Rightarrow> loop_state \<Rightarrow> bool" where
  "reduction_due tp currentTime st =
     (currentCe st \<ge> targetCe tp * upperThresholdRatio tp
      \<and> currentTime - lastAdjustmentTime st \<ge> minimumInterval
      \<and> currentRate st > MIN_INFUSION_RATE)"

text \<open>The body of that \<open>if\<close>: lower the rate, log the event, restart the interval.\<close>

definition apply_reduction :: "threshold_params \<Rightarrow> real \<Rightarrow> loop_state \<Rightarrow> loop_state" where
  "apply_reduction tp currentTime st =
     (let old = currentRate st;
          new = max MIN_INFUSION_RATE (old * reductionFactor tp)
      in st\<lparr>currentRate := new,
            dosageAdjustments := dosageAdjustments st @
              [\<lparr>eventTime = currentTime, oldRate = old, newRate = new,
                ceAtEvent = currentCe st,
                reductionPercent = ((old - new) / old) * 100,
                sequenceNumber = Suc (adjustmentCount st)\<rparr>],
            adjustmentCount := Suc (adjustmentCount st),
            lastAdjustmentTime := currentTime\<rparr>)"

text \<open>
  One pass through the body of the loop, for the index \<open>i\<close>. The infusion in mg/min is
  taken from the rate at the start of the pass; the reduction, when its guard holds, comes
  before the sample is stored. \<open>toFixed(1)\<close> on a multiple of the step is the identity.
\<close>

definition protocol_step ::
  "patient \<Rightarrow> pk_parameters \<Rightarrow> threshold_params \<Rightarrow> nat \<Rightarrow> loop_state \<Rightarrow> loop_state" where
  "protocol_step pat pk tp i st =
     (let currentTime = real i * TIME_STEP;
          infusionRateMgMin = (currentRate st * weight pat) / 60.0;
          plasmaC = a1 (state st) / v1 pk;
          st1 = (if i > 0
                 then st\<lparr>currentCe :=
                          currentCe st + TIME_STEP * (ke0 pk * (plasmaC - currentCe st))\<rparr>
                 else st);
          st2 = (if reduction_due tp currentTime st1
                 then apply_reduction tp currentTime st1 else st1);
          st3 = st2\<lparr>timeSeriesData := timeSeriesData st2 @
                     [\<lparr>time = currentTime, ce = currentCe st2, plasma = plasmaC,
                       infusionRate = currentRate st2, sampleTargetCe = targetCe tp,
                       upperThreshold = targetCe tp * upperThresholdRatio tp,
                       adjustmentNumber = adjustmentCount st2,
                       isBolus = (i = 0),
                       timeSinceLastAdjustment = currentTime - lastAdjustmentTime st2\<rparr>]\<rparr>
      in if i < numSteps - 1
         then st3\<lparr>state := updateSystemStateRK4 pk (state st3) infusionRateMgMin TIME_STEP\<rparr>
         else st3)"

definition protocol_init :: "pk_parameters \<Rightarrow> real \<Rightarrow> real \<Rightarrow> loop_state" where
  "protocol_init pk bolusDoseMg initialContinuousRate =
     (let bolusState = calculateBolusInitialState pk bolusDoseMg
      in \<lparr>state = \<lparr>a1 = a1 bolusState, a2 = a2 bolusState, a3 = a3 bolusState\<rparr>,
          currentCe = effectSiteConc bolusState,
          currentRate = initialContinuousRate,
          timeSeriesData = [],
          dosageAdjustments = [],
          lastAdjustmentTime = - minimumInterval,
          adjustmentCount = 0\<rparr>)"

text \<open>The variables after the first \<open>n\<close> passes \<open>i = 0, ..., n - 1\<close> of the loop.\<close>

primrec protocol_loop ::
  "patient \<Rightarrow> pk_parameters \<Rightarrow> real \<Rightarrow> real \<Rightarrow> threshold_params \<Rightarrow> nat \<Rightarrow> loop_state" where
  "protocol_loop pat pk bolusDoseMg initialContinuousRate tp 0 =
     protocol_init pk bolusDoseMg initialContinuousRate"
| "protocol_loop pat pk bolusDoseMg initialContinuousRate tp (Suc n) =
     protocol_step pat pk tp n (protocol_loop pat pk bolusDoseMg initialContinuousRate tp n)"

text \<open>
  The result of \<open>simulateCompleteProtocol\<close>. Its \<open>performance\<close> field, a summary computed
  from the finished trajectory by \<open>evaluatePerformance\<close>, is left out.
\<close>

record simulation_result =
  resultSeries :: "sample list"
  resultAdjustments :: "adjustment list"
  resultBolusDose :: real
  resultInitialRate :: real
  resultParams :: threshold_params

definition simulateCompleteProtocol ::
  "patient \<Rightarrow> pk_parameters \<Rightarrow> real \<Rightarrow> real \<Rightarrow> threshold_params \<Rightarrow> simulation_result" where
  "simulateCompleteProtocol pat pk bolusDoseMg initialContinuousRate tp =
     (let final = protocol_loop pat pk bolusDoseMg initialContinuousRate tp numSteps
      in \<lparr>resultSeries = timeSeriesData final,
          resultAdjustments = dosageAdjustments final,
          resultBolusDose = bolusDoseMg,
          resultInitialRate = initialContinuousRate,
          resultParams = tp\<rparr>)"

section \<open>BolusProtocolCalculator\<close>

datatype protocol_error =
  PatientValidationFailed "validation_error list"
| BolusDoseOutOfRange
| TargetCeOutOfRange

text \<open>The optional overrides; \<open>None\<close> is a property that the caller's object does not have.\<close>

record protocol_params =
  ppTargetReachTime :: "real option"
  ppUpperThresholdRatio :: "real option"
  ppReductionFactor :: "real option"
  ppTargetCe :: "real option"

text \<open>
  The bundle that \<open>calculateBolusProtocol\<close> returns, without the fields that only present
  or time the computation (clinical step list, comparison table, performance summary,
  elapsed milliseconds).
\<close>

record protocol_result =
  prPkParams :: pk_parameters
  prBolusDose :: real
  prTargetCe :: real
  prOptimalContinuousRate :: real
  prOptimizationResult :: optimization_result
  prSimulationData :: "sample list"
  prDosageAdjustments :: "adjustment list"
  prTargetReachTime :: real
  prThresholdParams :: threshold_params

text \<open>
  What \<open>calculateBolusProtocol\<close> returns when it does not throw. \<open>Bundle\<close> is the bundle
  computed from a numeric patient, dose and target. \<open>BundleOfNaN\<close> stands for the bundle
  that the code computes when a NaN has passed the checks: the parameters, the optimizer
  and the simulator are then run on it and the bundle is returned all the same; its
  numbers are not represented here. (The ke0 function is taken to return for every input.)
\<close>

datatype protocol_outcome = Bundle protocol_result | BundleOfNaN

text \<open>
  \<open>Inl\<close> is a thrown error. The outer \<open>option\<close> is \<open>None\<close> only if the grid loop of the
  optimizer does not end.
\<close>

definition calculateBolusProtocol ::
  "(real \<Rightarrow> real \<Rightarrow> real \<Rightarrow> real \<Rightarrow> real \<Rightarrow> real) \<Rightarrow> js_patient \<Rightarrow> js_number \<Rightarrow> js_number
     \<Rightarrow> protocol_params \<Rightarrow> (protocol_error + protocol_outcome) option" where
  "calculateBolusProtocol calculateKe0 pat bolusDoseMg tCe pp =
     (let validation = validate pat
      in if \<not> isValid validation then Some (Inl (PatientValidationFailed (errors validation)))
         else if js_lt bolusDoseMg (Num MIN_BOLUS_DOSE) \<or> js_lt (Num MAX_BOLUS_DOSE) bolusDoseMg
         then Some (Inl BolusDoseOutOfRange)
         else if js_lt tCe (Num 0.5) \<or> js_lt (Num 3.0) tCe then Some (Inl TargetCeOutOfRange)
         else
           (case (numeric_patient pat, bolusDoseMg, tCe) of
              (Some p, Num b, Num t) \<Rightarrow>
                let reach = (case ppTargetReachTime pp of
                               None \<Rightarrow> DEFAULT_TARGET_REACH_TIME | Some T \<Rightarrow> T);
                    finalParams =
                      \<lparr>targetCe = (case ppTargetCe pp of None \<Rightarrow> t | Some c \<Rightarrow> c),
                       upperThresholdRatio =
                         (case ppUpperThresholdRatio pp of
                            None \<Rightarrow> DEFAULT_UPPER_THRESHOLD_RATIO | Some r \<Rightarrow> r),
                       reductionFactor =
                         (case ppReductionFactor pp of
                            None \<Rightarrow> OPTIMIZED_REDUCTION_FACTOR | Some f \<Rightarrow> f)\<rparr>;
                    pkParams = calculatePKParameters calculateKe0 p
                in (case optimizeContinuousRate p pkParams (Num b) (Num t) reach of
                      None \<Rightarrow> None
                    | Some optimizationResult \<Rightarrow>
                        let simulationResult =
                              simulateCompleteProtocol p pkParams b
                                (optimalRate optimizationResult) finalParams
                        in Some (Inr (Bundle
                             \<lparr>prPkParams = pkParams,
                              prBolusDose = b,
                              prTargetCe = t,
                              prOptimalContinuousRate = optimalRate optimizationResult,
                              prOptimizationResult = optimizationResult,
                              prSimulationData = resultSeries simulationResult,
                              prDosageAdjustments = resultAdjustments simulationResult,
                              prTargetReachTime = reach,
                              prThresholdParams = finalParams\<rparr>)))
            | _ \<Rightarrow> (case testRates of None \<Rightarrow> None | Some rates \<Rightarrow> Some (Inr BundleOfNaN))))"

section \<open>A small run\<close>

text \<open>
  Concrete inputs on which the statements below are exercised: a 60 kg patient, a parameter
  set without clearance and with fast effect-site equilibration (exact arithmetic on it
  stays short), a 2 mg bolus, 1 mg/kg/hr, and the default threshold parameters. In this run
  the effect site crosses the threshold 1.2 in the pass of index 1.
\<close>

definition demo_patient :: patient where
  "demo_patient =
     \<lparr>patientId = [80, 49], age = 54, weight = 60, height = 170, sex = 0, asaPS = 0\<rparr>"

definition demo_pk :: pk_parameters where
  "demo_pk = \<lparr>v1 = 1, v2 = 1, v3 = 1, cl = 0, q2 = 0, q3 = 0, ke0 = 10\<rparr>"

definition demo_params :: threshold_params where
  "demo_params = \<lparr>targetCe = 1, upperThresholdRatio = 1.2, reductionFactor = 0.7\<rparr>"

text \<open>The same patient as the form constructs it.\<close>

definition demo_entry :: js_patient where
  "demo_entry =
     \<lparr>enteredId = [80, 49], enteredAge = Num 54, enteredWeight = Num 60,
      enteredHeight = Num 170, enteredSex = 0, enteredAsaPS = 0\<rparr>"

section \<open>Facts about one pass of the protocol loop\<close>

lemmas consts_defs =
  SIMULATION_DURATION_def TIME_STEP_def MIN_INFUSION_RATE_def MAX_INFUSION_RATE_def
  MIN_BOLUS_DOSE_def MAX_BOLUS_DOSE_def minimumInterval_def

lemma numSteps_eq: "numSteps = 1801"
  by (simp add: numSteps_def consts_defs)

lemma step_ce:
  "currentCe (protocol_step pat pk tp i st) =
     (if i > 0 then currentCe st + TIME_STEP * (ke0 pk * (a1 (state st) / v1 pk - currentCe st))
      else currentCe st)"
  by (simp add: protocol_step_def apply_reduction_def Let_def)

lemma step_series:
  "timeSeriesData (protocol_step pat pk tp i st) =
     timeSeriesData st @
       [\<lparr>time = real i * TIME_STEP,
         ce = currentCe (protocol_step pat pk tp i st),
         plasma = a1 (state st) / v1 pk,
         infusionRate = currentRate (protocol_step pat pk tp i st),
         sampleTargetCe = targetCe tp,
         upperThreshold = targetCe tp * upperThresholdRatio tp,
         adjustmentNumber = adjustmentCount (protocol_step pat pk tp i st),
         isBolus = (i = 0),
         timeSinceLastAdjustment =
           real i * TIME_STEP - lastAdjustmentTime (protocol_step pat pk tp i st)\<rparr>]"
  by (simp add: protocol_step_def apply_reduction_def Let_def)

lemma step_when_due:
  assumes "reduction_due tp (real i * TIME_STEP)
             (st\<lparr>currentCe := currentCe (protocol_step pat pk tp i st)\<rparr>)"
  shows "currentRate (protocol_step pat pk tp i st) =
           max MIN_INFUSION_RATE (currentRate st * reductionFactor tp)"
    and "dosageAdjustments (protocol_step pat pk tp i st) =
           dosageAdjustments st @
             [\<lparr>eventTime = real i * TIME_STEP, oldRate = currentRate st,
               newRate = max MIN_INFUSION_RATE (currentRate st * reductionFactor tp),
               ceAtEvent = currentCe (protocol_step pat pk tp i st),
               reductionPercent =
                 ((currentRate st - max MIN_INFUSION_RATE (currentRate st * reductionFactor tp))
                    / currentRate st) * 100,
               sequenceNumber = Suc (adjustmentCount st)\<rparr>]"
    and "adjustmentCount (protocol_step pat pk tp i st) = Suc (adjustmentCount st)"
    and "lastAdjustmentTime (protocol_step pat pk tp i st) = real i * TIME_STEP"
  using assms
  by (auto simp: protocol_step_def apply_reduction_def Let_def split: if_splits)

lemma step_when_not_due:
  assumes "\<not> reduction_due tp (real i * TIME_STEP)
             (st\<lparr>currentCe := currentCe (protocol_step pat pk tp i st)\<rparr>)"
  shows "currentRate (protocol_step pat pk tp i st) = currentRate st"
    and "dosageAdjustments (protocol_step pat pk tp i st) = dosageAdjustments st"
    and "adjustmentCount (protocol_step pat pk tp i st) = adjustmentCount st"
    and "lastAdjustmentTime (protocol_step pat pk tp i st) = lastAdjustmentTime st"
  using assms
  by (auto simp: protocol_step_def apply_reduction_def Let_def split: if_splits)

section \<open>The trajectory\<close>

lemma loop_series_length:
  "length (timeSeriesData (protocol_loop pat pk b r tp n)) = n"
  by (induction n) (simp_all add: protocol_init_def Let_def step_series)

lemma loop_series_times:
  "map time (timeSeriesData (protocol_loop pat pk b r tp n)) =
     map (\<lambda>i. real i * TIME_STEP) [0..<n]"
  by (induction n) (simp_all add: protocol_init_def Let_def step_series)

section \<open>Invariants of the protocol loop\<close>


lemma loop_count:
  "adjustmentCount (protocol_loop pat pk b r tp n) =
     length (dosageAdjustments (protocol_loop pat pk b r tp n))"
proof (induction n)
  case 0
  show ?case by (simp add: protocol_init_def Let_def)
next
  case (Suc n)
  let ?st = "protocol_loop pat pk b r tp n"
  show ?case
  proof (cases "reduction_due tp (real n * TIME_STEP)
                  (?st\<lparr>currentCe := currentCe (protocol_step pat pk tp n ?st)\<rparr>)")
    case True
    from step_when_due(2,3) [OF True] Suc show ?thesis by simp
  next
    case False
    from step_when_not_due(2,3) [OF False] Suc show ?thesis by simp
  qed
qed

lemma loop_sequence_numbers:
  "map sequenceNumber (dosageAdjustments (protocol_loop pat pk b r tp n)) =
     [1..<Suc (length (dosageAdjustments (protocol_loop pat pk b r tp n)))]"
proof (induction n)
  case 0
  show ?case by (simp add: protocol_init_def Let_def)
next
  case (Suc n)
  let ?st = "protocol_loop pat pk b r tp n"
  show ?case
  proof (cases "reduction_due tp (real n * TIME_STEP)
                  (?st\<lparr>currentCe := currentCe (protocol_step pat pk tp n ?st)\<rparr>)")
    case True
    from step_when_due(2) [OF True] Suc loop_count [of pat pk b r tp n]
    show ?thesis by simp
  next
    case False
    from step_when_not_due(2) [OF False] Suc show ?thesis by simp
  qed
qed

lemma loop_events_before_last:
  "\<forall>e \<in> set (dosageAdjustments (protocol_loop pat pk b r tp n)).
     eventTime e \<le> lastAdjustmentTime (protocol_loop pat pk b r tp n)"
proof (induction n)
  case 0
  show ?case by (simp add: protocol_init_def Let_def)
next
  case (Suc n)
  let ?st = "protocol_loop pat pk b r tp n"
  show ?case
  proof (cases "reduction_due tp (real n * TIME_STEP)
                  (?st\<lparr>currentCe := currentCe (protocol_step pat pk tp n ?st)\<rparr>)")
    case True
    then have "lastAdjustmentTime ?st \<le> real n * TIME_STEP"
      by (simp add: reduction_due_def minimumInterval_def)
    with step_when_due(2,4) [OF True] Suc show ?thesis by fastforce
  next
    case False
    from step_when_not_due(2,4) [OF False] Suc show ?thesis by simp
  qed
qed

lemma loop_events_spaced:
  "sorted_wrt (\<lambda>x y. minimumInterval \<le> eventTime y - eventTime x)
     (dosageAdjustments (protocol_loop pat pk b r tp n))"
proof (induction n)
  case 0
  show ?case by (simp add: protocol_init_def Let_def)
next
  case (Suc n)
  let ?st = "protocol_loop pat pk b r tp n"
  show ?case
  proof (cases "reduction_due tp (real n * TIME_STEP)
                  (?st\<lparr>currentCe := currentCe (protocol_step pat pk tp n ?st)\<rparr>)")
    case True
    then have "minimumInterval \<le> real n * TIME_STEP - lastAdjustmentTime ?st"
      by (simp add: reduction_due_def)
    with loop_events_before_last [of pat pk b r tp n]
    have "\<forall>e \<in> set (dosageAdjustments ?st). minimumInterval \<le> real n * TIME_STEP - eventTime e"
      by fastforce
    with step_when_due(2) [OF True] Suc show ?thesis
      by (simp add: sorted_wrt_append)
  next
    case False
    from step_when_not_due(2) [OF False] Suc show ?thesis by simp
  qed
qed

lemma loop_events_prefix:
  "n \<le> m \<Longrightarrow> \<exists>ys. dosageAdjustments (protocol_loop pat pk b r tp m) =
     dosageAdjustments (protocol_loop pat pk b r tp n) @ ys"
proof (induction m)
  case 0
  then show ?case by simp
next
  case (Suc m)
  let ?st = "protocol_loop pat pk b r tp m"
  show ?case
  proof (cases "n = Suc m")
    case True
    then show ?thesis by simp
  next
    case ne: False
    with Suc obtain ys where ys: "dosageAdjustments ?st = dosageAdjustments (protocol_loop pat pk b r tp n) @ ys"
      by auto
    show ?thesis
    proof (cases "reduction_due tp (real m * TIME_STEP)
                  (?st\<lparr>currentCe := currentCe (protocol_step pat pk tp m ?st)\<rparr>)")
      case True
      from step_when_due(2) [OF True] ys show ?thesis by simp
    next
      case False
      from step_when_not_due(2) [OF False] ys show ?thesis by simp
    qed
  qed
qed

lemma loop_series_take:
  "n \<le> m \<Longrightarrow> timeSeriesData (protocol_loop pat pk b r tp n) =
     take n (timeSeriesData (protocol_loop pat pk b r tp m))"
proof (induction m)
  case 0
  then show ?case by (simp add: protocol_init_def Let_def)
next
  case (Suc m)
  show ?case
  proof (cases "n = Suc m")
    case True
    then show ?thesis using loop_series_length [of pat pk b r tp "Suc m"] by simp
  next
    case False
    with Suc have "timeSeriesData (protocol_loop pat pk b r tp n) =
      take n (timeSeriesData (protocol_loop pat pk b r tp m))" and "n \<le> m" by auto
    then show ?thesis
      using loop_series_length [of pat pk b r tp m] by (simp add: step_series)
  qed
qed

lemma loop_series_nth:
  assumes "i < m"
  shows "timeSeriesData (protocol_loop pat pk b r tp m) ! i =
     \<lparr>time = real i * TIME_STEP,
       ce = currentCe (protocol_loop pat pk b r tp (Suc i)),
       plasma = a1 (state (protocol_loop pat pk b r tp i)) / v1 pk,
       infusionRate = currentRate (protocol_loop pat pk b r tp (Suc i)),
       sampleTargetCe = targetCe tp,
       upperThreshold = targetCe tp * upperThresholdRatio tp,
       adjustmentNumber = adjustmentCount (protocol_loop pat pk b r tp (Suc i)),
       isBolus = (i = 0),
       timeSinceLastAdjustment =
         real i * TIME_STEP - lastAdjustmentTime (protocol_loop pat pk b r tp (Suc i))\<rparr>"
proof -
  from assms have "Suc i \<le> m" by simp
  from loop_series_take [OF this, of pat pk b r tp]
  have "timeSeriesData (protocol_loop pat pk b r tp m) ! i =
        timeSeriesData (protocol_loop pat pk b r tp (Suc i)) ! i"
    by simp
  also have "\<dots> = last (timeSeriesData (protocol_loop pat pk b r tp (Suc i)))"
    using loop_series_length [of pat pk b r tp "Suc i"]
    by (metis diff_Suc_1 last_conv_nth length_0_conv nat.distinct(1))
  finally show ?thesis by (simp add: step_series)
qed

lemma loop_rate_is_last:
  "currentRate (protocol_loop pat pk b r tp n) =
     last (r # map newRate (dosageAdjustments (protocol_loop pat pk b r tp n)))"
proof (induction n)
  case 0
  show ?case by (simp add: protocol_init_def Let_def)
next
  case (Suc n)
  let ?st = "protocol_loop pat pk b r tp n"
  show ?case
  proof (cases "reduction_due tp (real n * TIME_STEP)
                  (?st\<lparr>currentCe := currentCe (protocol_step pat pk tp n ?st)\<rparr>)")
    case True
    from step_when_due(1,2) [OF True] show ?thesis by simp
  next
    case False
    from step_when_not_due(1,2) [OF False] Suc show ?thesis by simp
  qed
qed

lemma loop_old_rates:
  "map oldRate (dosageAdjustments (protocol_loop pat pk b r tp n)) =
     butlast (r # map newRate (dosageAdjustments (protocol_loop pat pk b r tp n)))"
proof (induction n)
  case 0
  show ?case by (simp add: protocol_init_def Let_def)
next
  case (Suc n)
  let ?st = "protocol_loop pat pk b r tp n"
  show ?case
  proof (cases "reduction_due tp (real n * TIME_STEP)
                  (?st\<lparr>currentCe := currentCe (protocol_step pat pk tp n ?st)\<rparr>)")
    case True
    have "butlast (r # map newRate (dosageAdjustments ?st)) @ [currentRate ?st] =
          r # map newRate (dosageAdjustments ?st)"
      unfolding loop_rate_is_last by (rule append_butlast_last_id) simp
    with step_when_due(2) [OF True] Suc show ?thesis
      by (simp add: butlast_append)
  next
    case False
    from step_when_not_due(2) [OF False] Suc show ?thesis by simp
  qed
qed

lemma loop_event_facts:
  "\<forall>e \<in> set (dosageAdjustments (protocol_loop pat pk b r tp n)).
     newRate e = max MIN_INFUSION_RATE (oldRate e * reductionFactor tp) \<and>
     MIN_INFUSION_RATE < oldRate e \<and>
     targetCe tp * upperThresholdRatio tp \<le> ceAtEvent e"
proof (induction n)
  case 0
  show ?case by (simp add: protocol_init_def Let_def)
next
  case (Suc n)
  let ?st = "protocol_loop pat pk b r tp n"
  show ?case
  proof (cases "reduction_due tp (real n * TIME_STEP)
                  (?st\<lparr>currentCe := currentCe (protocol_step pat pk tp n ?st)\<rparr>)")
    case True
    then have "MIN_INFUSION_RATE < currentRate ?st"
      and "targetCe tp * upperThresholdRatio tp \<le> currentCe (protocol_step pat pk tp n ?st)"
      by (simp_all add: reduction_due_def)
    with step_when_due(2) [OF True] Suc show ?thesis by simp
  next
    case False
    from step_when_not_due(2) [OF False] Suc show ?thesis by simp
  qed
qed

lemma loop_no_events_last:
  "dosageAdjustments (protocol_loop pat pk b r tp n) = [] \<Longrightarrow>
   lastAdjustmentTime (protocol_loop pat pk b r tp n) = - minimumInterval"
proof (induction n)
  case 0
  show ?case by (simp add: protocol_init_def Let_def)
next
  case (Suc n)
  let ?st = "protocol_loop pat pk b r tp n"
  show ?case
  proof (cases "reduction_due tp (real n * TIME_STEP)
                  (?st\<lparr>currentCe := currentCe (protocol_step pat pk tp n ?st)\<rparr>)")
    case True
    from step_when_due(2) [OF True] Suc.prems show ?thesis by simp
  next
    case False
    from step_when_not_due(2,4) [OF False] Suc show ?thesis by simp
  qed
qed

lemma loop_quiet_below_threshold:
  assumes "\<forall>j<n. currentCe (protocol_loop pat pk b r tp (Suc j))
                    < targetCe tp * upperThresholdRatio tp"
  shows "dosageAdjustments (protocol_loop pat pk b r tp n) = []"
  using assms
proof (induction n)
  case 0
  show ?case by (simp add: protocol_init_def Let_def)
next
  case (Suc n)
  let ?st = "protocol_loop pat pk b r tp n"
  from Suc.prems have "\<not> reduction_due tp (real n * TIME_STEP)
        (?st\<lparr>currentCe := currentCe (protocol_step pat pk tp n ?st)\<rparr>)"
    by (auto simp: reduction_due_def)
  from step_when_not_due(2) [OF this] Suc show ?case by simp
qed

lemma loop_first_crossing:
  assumes quiet: "dosageAdjustments (protocol_loop pat pk b r tp i) = []"
    and cross: "targetCe tp * upperThresholdRatio tp
                  \<le> currentCe (protocol_loop pat pk b r tp (Suc i))"
    and rate: "MIN_INFUSION_RATE < r"
  shows "\<exists>e. dosageAdjustments (protocol_loop pat pk b r tp (Suc i)) = [e] \<and>
             eventTime e = real i * TIME_STEP"
proof -
  let ?st = "protocol_loop pat pk b r tp i"
  have "lastAdjustmentTime ?st = - minimumInterval"
    using quiet by (rule loop_no_events_last)
  moreover have "currentRate ?st = r"
    using quiet loop_rate_is_last [of pat pk b r tp i] by simp
  moreover have "0 \<le> real i * TIME_STEP"
    by (simp add: TIME_STEP_def)
  ultimately have "reduction_due tp (real i * TIME_STEP)
        (?st\<lparr>currentCe := currentCe (protocol_step pat pk tp i ?st)\<rparr>)"
    using cross rate by (simp add: reduction_due_def)
  from step_when_due(2) [OF this] quiet show ?thesis by simp
qed

section \<open>Rates along the loop\<close>

text \<open>Each event belongs to one pass: the rates before and after it, and the sample of it.\<close>

lemma loop_event_pass:
  "\<forall>e \<in> set (dosageAdjustments (protocol_loop pat pk b r tp n)).
     \<exists>i<n. eventTime e = real i * TIME_STEP \<and>
           oldRate e = currentRate (protocol_loop pat pk b r tp i) \<and>
           newRate e = currentRate (protocol_loop pat pk b r tp (Suc i)) \<and>
           ceAtEvent e = currentCe (protocol_loop pat pk b r tp (Suc i))"
proof (induction n)
  case 0
  show ?case by (simp add: protocol_init_def Let_def)
next
  case (Suc n)
  let ?st = "protocol_loop pat pk b r tp n"
  have old: "\<exists>i<Suc n. eventTime e = real i * TIME_STEP \<and>
           oldRate e = currentRate (protocol_loop pat pk b r tp i) \<and>
           newRate e = currentRate (protocol_loop pat pk b r tp (Suc i)) \<and>
           ceAtEvent e = currentCe (protocol_loop pat pk b r tp (Suc i))"
    if "e \<in> set (dosageAdjustments ?st)" for e
    using Suc that less_Suc_eq by blast
  show ?case
  proof (cases "reduction_due tp (real n * TIME_STEP)
                  (?st\<lparr>currentCe := currentCe (protocol_step pat pk tp n ?st)\<rparr>)")
    case True
    from step_when_due(1,2) [OF True] old show ?thesis by auto
  next
    case False
    from step_when_not_due(2) [OF False] old show ?thesis by auto
  qed
qed

lemma loop_events_split:
  "n \<le> m \<Longrightarrow> \<exists>ys. dosageAdjustments (protocol_loop pat pk b r tp m) =
       dosageAdjustments (protocol_loop pat pk b r tp n) @ ys \<and>
     (\<forall>e \<in> set ys. real n * TIME_STEP \<le> eventTime e)"
proof (induction m)
  case 0
  then show ?case by simp
next
  case (Suc m)
  let ?st = "protocol_loop pat pk b r tp m"
  show ?case
  proof (cases "n = Suc m")
    case True
    then show ?thesis by simp
  next
    case ne: False
    with Suc obtain ys where ys: "dosageAdjustments ?st =
        dosageAdjustments (protocol_loop pat pk b r tp n) @ ys"
      and late: "\<forall>e \<in> set ys. real n * TIME_STEP \<le> eventTime e"
      by auto
    from ne Suc.prems have "real n * TIME_STEP \<le> real m * TIME_STEP"
      by (simp add: TIME_STEP_def)
    with late have late': "\<forall>e \<in> set (ys @ [x]). real n * TIME_STEP \<le> eventTime e"
      if "eventTime x = real m * TIME_STEP" for x
      using that by auto
    show ?thesis
    proof (cases "reduction_due tp (real m * TIME_STEP)
                  (?st\<lparr>currentCe := currentCe (protocol_step pat pk tp m ?st)\<rparr>)")
      case True
      have "\<exists>x. dosageAdjustments (protocol_step pat pk tp m ?st) =
                 dosageAdjustments ?st @ [x] \<and> eventTime x = real m * TIME_STEP"
        using step_when_due(2) [OF True] by simp
      then obtain x where x: "dosageAdjustments (protocol_step pat pk tp m ?st) =
                 dosageAdjustments ?st @ [x]" and tx: "eventTime x = real m * TIME_STEP"
        by blast
      from late' [OF tx] x ys show ?thesis
        by (intro exI [of _ "ys @ [x]"]) simp
    next
      case False
      from step_when_not_due(2) [OF False] ys late show ?thesis by auto
    qed
  qed
qed

lemma loop_rate_lower:
  "MIN_INFUSION_RATE \<le> r \<Longrightarrow> MIN_INFUSION_RATE \<le> currentRate (protocol_loop pat pk b r tp n)"
proof (induction n)
  case 0
  then show ?case by (simp add: protocol_init_def Let_def)
next
  case (Suc n)
  let ?st = "protocol_loop pat pk b r tp n"
  show ?case
  proof (cases "reduction_due tp (real n * TIME_STEP)
                  (?st\<lparr>currentCe := currentCe (protocol_step pat pk tp n ?st)\<rparr>)")
    case True
    from step_when_due(1) [OF True] show ?thesis by simp
  next
    case False
    from step_when_not_due(1) [OF False] Suc show ?thesis by simp
  qed
qed

text \<open>A reduction by a factor of at most 1 does not raise the rate.\<close>

lemma reduced_le:
  assumes "MIN_INFUSION_RATE < c" and "f \<le> 1"
  shows "max MIN_INFUSION_RATE (c * f) \<le> c"
proof -
  from assms(1) have "0 < c" by (simp add: MIN_INFUSION_RATE_def)
  with assms(2) have "c * f \<le> c * 1" by (intro mult_left_mono) simp_all
  with assms(1) show ?thesis by simp
qed

lemma reduced_less:
  assumes "MIN_INFUSION_RATE < c" and "f < 1"
  shows "max MIN_INFUSION_RATE (c * f) < c"
proof -
  from assms(1) have "0 < c" by (simp add: MIN_INFUSION_RATE_def)
  with assms(2) have "c * f < c * 1" by (intro mult_strict_left_mono) simp_all
  with assms(1) show ?thesis by simp
qed

lemma raised_greater:
  assumes "MIN_INFUSION_RATE < c" and "1 < f"
  shows "c < max MIN_INFUSION_RATE (c * f)"
proof -
  from assms(1) have "0 < c" by (simp add: MIN_INFUSION_RATE_def)
  with assms(2) have "c * 1 < c * f" by (intro mult_strict_left_mono) simp_all
  then show ?thesis by simp
qed

lemma loop_rate_step_le:
  "reductionFactor tp \<le> 1 \<Longrightarrow>
   currentRate (protocol_loop pat pk b r tp (Suc n)) \<le> currentRate (protocol_loop pat pk b r tp n)"
proof -
  assume f: "reductionFactor tp \<le> 1"
  let ?st = "protocol_loop pat pk b r tp n"
  show ?thesis
  proof (cases "reduction_due tp (real n * TIME_STEP)
                  (?st\<lparr>currentCe := currentCe (protocol_step pat pk tp n ?st)\<rparr>)")
    case True
    then have "MIN_INFUSION_RATE < currentRate ?st" by (simp add: reduction_due_def)
    from reduced_le [OF this f] step_when_due(1) [OF True] show ?thesis by simp
  next
    case False
    from step_when_not_due(1) [OF False] show ?thesis by simp
  qed
qed

lemma loop_rate_upper:
  "reductionFactor tp \<le> 1 \<Longrightarrow> currentRate (protocol_loop pat pk b r tp n) \<le> r"
proof (induction n)
  case 0
  then show ?case by (simp add: protocol_init_def Let_def)
next
  case (Suc n)
  from loop_rate_step_le [OF Suc.prems, of pat pk b r n] Suc show ?case by simp
qed

lemma loop_old_above:
  "reductionFactor tp < 1 \<Longrightarrow>
   \<forall>e \<in> set (dosageAdjustments (protocol_loop pat pk b r tp n)).
     currentRate (protocol_loop pat pk b r tp n) < oldRate e"
proof (induction n)
  case 0
  show ?case by (simp add: protocol_init_def Let_def)
next
  case (Suc n)
  let ?st = "protocol_loop pat pk b r tp n"
  show ?case
  proof (cases "reduction_due tp (real n * TIME_STEP)
                  (?st\<lparr>currentCe := currentCe (protocol_step pat pk tp n ?st)\<rparr>)")
    case True
    then have "MIN_INFUSION_RATE < currentRate ?st" by (simp add: reduction_due_def)
    from reduced_less [OF this Suc.prems] step_when_due(1,2) [OF True] Suc
    show ?thesis by fastforce
  next
    case False
    from step_when_not_due(1,2) [OF False] Suc show ?thesis by simp
  qed
qed

lemma loop_old_below:
  "1 < reductionFactor tp \<Longrightarrow>
   \<forall>e \<in> set (dosageAdjustments (protocol_loop pat pk b r tp n)).
     oldRate e < currentRate (protocol_loop pat pk b r tp n)"
proof (induction n)
  case 0
  show ?case by (simp add: protocol_init_def Let_def)
next
  case (Suc n)
  let ?st = "protocol_loop pat pk b r tp n"
  show ?case
  proof (cases "reduction_due tp (real n * TIME_STEP)
                  (?st\<lparr>currentCe := currentCe (protocol_step pat pk tp n ?st)\<rparr>)")
    case True
    then have "MIN_INFUSION_RATE < currentRate ?st" by (simp add: reduction_due_def)
    from raised_greater [OF this Suc.prems] step_when_due(1,2) [OF True] Suc
    show ?thesis by fastforce
  next
    case False
    from step_when_not_due(1,2) [OF False] Suc show ?thesis by simp
  qed
qed

lemma loop_rates_sorted:
  "reductionFactor tp \<le> 1 \<Longrightarrow>
   sorted_wrt (\<ge>) (r # map newRate (dosageAdjustments (protocol_loop pat pk b r tp n))) \<and>
   (\<forall>y \<in> set (r # map newRate (dosageAdjustments (protocol_loop pat pk b r tp n))).
      currentRate (protocol_loop pat pk b r tp n) \<le> y)"
proof (induction n)
  case 0
  show ?case by (simp add: protocol_init_def Let_def)
next
  case (Suc n)
  let ?st = "protocol_loop pat pk b r tp n"
  let ?xs = "r # map newRate (dosageAdjustments ?st)"
  from Suc have srt: "sorted_wrt (\<ge>) ?xs" and low: "\<forall>y \<in> set ?xs. currentRate ?st \<le> y"
    by simp_all
  show ?case
  proof (cases "reduction_due tp (real n * TIME_STEP)
                  (?st\<lparr>currentCe := currentCe (protocol_step pat pk tp n ?st)\<rparr>)")
    case True
    then have "MIN_INFUSION_RATE < currentRate ?st" by (simp add: reduction_due_def)
    from reduced_le [OF this Suc.prems]
    have le: "max MIN_INFUSION_RATE (currentRate ?st * reductionFactor tp) \<le> currentRate ?st" .
    with low have all: "\<forall>y \<in> set ?xs.
        max MIN_INFUSION_RATE (currentRate ?st * reductionFactor tp) \<le> y"
      by fastforce
    have "r # map newRate (dosageAdjustments (protocol_loop pat pk b r tp (Suc n))) =
          ?xs @ [max MIN_INFUSION_RATE (currentRate ?st * reductionFactor tp)]"
      using step_when_due(2) [OF True] by simp
    moreover have "sorted_wrt (\<ge>)
        (?xs @ [max MIN_INFUSION_RATE (currentRate ?st * reductionFactor tp)])"
      using srt all by (simp only: sorted_wrt_append) simp
    moreover have "currentRate (protocol_loop pat pk b r tp (Suc n)) =
        max MIN_INFUSION_RATE (currentRate ?st * reductionFactor tp)"
      using step_when_due(1) [OF True] by simp
    ultimately show ?thesis
      using all by (simp del: protocol_loop.simps)
  next
    case False
    from step_when_not_due(1,2) [OF False] srt low show ?thesis by simp
  qed
qed

section \<open>The result in terms of the loop\<close>

lemma result_events_prefix:
  "n \<le> numSteps \<Longrightarrow>
   \<exists>ys. resultAdjustments (simulateCompleteProtocol pat pk b r tp) =
     dosageAdjustments (protocol_loop pat pk b r tp n) @ ys"
  using loop_events_prefix [of n numSteps pat pk b r tp]
  by (simp add: simulateCompleteProtocol_def Let_def)

lemma result_series_nth:
  "i < numSteps \<Longrightarrow>
   time (resultSeries (simulateCompleteProtocol pat pk b r tp) ! i) = real i * TIME_STEP \<and>
   ce (resultSeries (simulateCompleteProtocol pat pk b r tp) ! i) =
     currentCe (protocol_loop pat pk b r tp (Suc i)) \<and>
   plasma (resultSeries (simulateCompleteProtocol pat pk b r tp) ! i) =
     a1 (state (protocol_loop pat pk b r tp i)) / v1 pk \<and>
   infusionRate (resultSeries (simulateCompleteProtocol pat pk b r tp) ! i) =
     currentRate (protocol_loop pat pk b r tp (Suc i))"
  using loop_series_nth [of i numSteps pat pk b r tp]
  by (simp add: simulateCompleteProtocol_def Let_def del: protocol_loop.simps)

lemma result_series_length:
  "length (resultSeries (simulateCompleteProtocol pat pk b r tp)) = numSteps"
  by (simp add: simulateCompleteProtocol_def Let_def loop_series_length)

section \<open>The candidate grid in binary64\<close>


lemmas b64_defs = b64_add_def b64_div_def b64_round_def b64_half_even_def

lemma testRates_value:
  "testRates = Some
     [5404319552844595 / 18014398509481984,
      3602879701896397 / 9007199254740992,
      1 / 2,
      5404319552844595 / 9007199254740992,
      3152519739159347 / 4503599627370496,
      7205759403792793 / 9007199254740992,
      2026619832316723 / 2251799813685248,
      9007199254740991 / 9007199254740992,
      4953959590107545 / 4503599627370496,
      5404319552844595 / 4503599627370496,
      5854679515581645 / 4503599627370496,
      6305039478318695 / 4503599627370496,
      6755399441055745 / 4503599627370496,
      7205759403792795 / 4503599627370496,
      7656119366529845 / 4503599627370496,
      8106479329266895 / 4503599627370496,
      8556839292003945 / 4503599627370496,
      4503599627370497 / 2251799813685248,
      2364389804369511 / 1125899906842624,
      4953959590107547 / 2251799813685248,
      647392446434509 / 281474976710656,
      5404319552844597 / 2251799813685248,
      2814749767106561 / 1125899906842624,
      5854679515581647 / 2251799813685248,
      1519964874237543 / 562949953421312,
      6305039478318697 / 2251799813685248,
      3265109729843611 / 1125899906842624,
      6755399441055747 / 2251799813685248,
      436286213901517 / 140737488355328,
      7205759403792797 / 2251799813685248,
      3715469692580661 / 1125899906842624,
      7656119366529847 / 2251799813685248,
      1970324836974593 / 562949953421312,
      8106479329266897 / 2251799813685248,
      4165829655317711 / 1125899906842624,
      8556839292003947 / 2251799813685248,
      1097752409171559 / 281474976710656]"
  by (simp add: testRates_def OPTIMIZATION_MIN_RATE_def OPTIMIZATION_MAX_RATE_def
      OPTIMIZATION_STEP_def testRates_loop.simps b64_defs)


section \<open>The scan of the optimizer\<close>

lemma js_lt_simps [simp]:
  "js_lt (Num x) (Num y) = (x < y)"
  "js_lt (Num x) PosInf"
  "\<not> js_lt PosInf b"
  "\<not> js_lt NaN b"
  "\<not> js_lt a NaN"
  by (simp_all add: js_lt_def split: js_number.splits)

lemma js_lt_trans: "js_lt a b \<Longrightarrow> js_lt b c \<Longrightarrow> js_lt a c"
  by (cases a; cases b; cases c) (simp_all add: js_lt_def)

lemma js_lt_not_below:
  "js_lt e b \<Longrightarrow> \<not> js_lt y b \<Longrightarrow> js_lt e y \<or> y = NaN"
  by (cases e; cases b; cases y) (simp_all add: js_lt_def)


lemma js_error_of_NaN_target [simp]:
  "js_abs (js_sub c NaN) = NaN"
  by (cases c) (simp_all add: js_sub_def js_abs_def)

lemma scan_rates_results:
  "map rate (optimizationResults (scan_rates pat pk b t T rates st)) =
     map rate (optimizationResults st) @ rates"
  by (induction rates arbitrary: st) (simp_all add: Let_def)

text \<open>
  After a scan, either no candidate so far had an error below \<open>Infinity\<close> and the incumbent
  is still the initial one, or the incumbent is the leftmost candidate of least error:
  every candidate before it has a larger error or the error NaN, and no candidate after it
  has a smaller one.
\<close>

lemma scan_rates_leftmost:
  assumes "(bestError st = PosInf \<and> bestRate st = r0 \<and>
      (\<forall>x \<in> set cands.
         \<not> js_lt (js_abs (js_sub (simulateBolusAndContinuous_js pat pk b x T) t)) PosInf)) \<or>
     (\<exists>pre post. cands = pre @ bestRate st # post \<and>
        bestError st = js_abs (js_sub (simulateBolusAndContinuous_js pat pk b (bestRate st) T) t) \<and>
        js_lt (bestError st) PosInf \<and>
        (\<forall>x \<in> set pre.
           js_lt (bestError st) (js_abs (js_sub (simulateBolusAndContinuous_js pat pk b x T) t))
           \<or> js_abs (js_sub (simulateBolusAndContinuous_js pat pk b x T) t) = NaN) \<and>
        (\<forall>x \<in> set post.
           \<not> js_lt (js_abs (js_sub (simulateBolusAndContinuous_js pat pk b x T) t))
                (bestError st)))"
  shows "(bestError (scan_rates pat pk b t T rates st) = PosInf \<and>
      bestRate (scan_rates pat pk b t T rates st) = r0 \<and>
      (\<forall>x \<in> set (cands @ rates).
         \<not> js_lt (js_abs (js_sub (simulateBolusAndContinuous_js pat pk b x T) t)) PosInf)) \<or>
     (\<exists>pre post. cands @ rates = pre @ bestRate (scan_rates pat pk b t T rates st) # post \<and>
        bestError (scan_rates pat pk b t T rates st) =
          js_abs (js_sub (simulateBolusAndContinuous_js pat pk b
                    (bestRate (scan_rates pat pk b t T rates st)) T) t) \<and>
        js_lt (bestError (scan_rates pat pk b t T rates st)) PosInf \<and>
        (\<forall>x \<in> set pre.
           js_lt (bestError (scan_rates pat pk b t T rates st))
             (js_abs (js_sub (simulateBolusAndContinuous_js pat pk b x T) t))
           \<or> js_abs (js_sub (simulateBolusAndContinuous_js pat pk b x T) t) = NaN) \<and>
        (\<forall>x \<in> set post.
           \<not> js_lt (js_abs (js_sub (simulateBolusAndContinuous_js pat pk b x T) t))
                (bestError (scan_rates pat pk b t T rates st))))"
  using assms
proof (induction rates arbitrary: st cands)
  case Nil
  then show ?case by simp
next
  case (Cons x rates)
  let ?e = "\<lambda>y. js_abs (js_sub (simulateBolusAndContinuous_js pat pk b y T) t)"
  let ?pushed = "st\<lparr>optimizationResults := optimizationResults st @
      [\<lparr>rate = x, ceAtTarget = simulateBolusAndContinuous_js pat pk b x T,
        error = ?e x, relativeError = js_mul (js_div (?e x) t) (Num 100)\<rparr>]\<rparr>"
  let ?st' = "if js_lt (?e x) (bestError ?pushed)
              then ?pushed\<lparr>bestError := ?e x, bestRate := x\<rparr> else ?pushed"
  have step: "scan_rates pat pk b t T (x # rates) st = scan_rates pat pk b t T rates ?st'"
    by (simp add: Let_def)
  have inv: "(bestError ?st' = PosInf \<and> bestRate ?st' = r0 \<and>
      (\<forall>y \<in> set (cands @ [x]). \<not> js_lt (?e y) PosInf)) \<or>
     (\<exists>pre post. cands @ [x] = pre @ bestRate ?st' # post \<and>
        bestError ?st' = ?e (bestRate ?st') \<and>
        js_lt (bestError ?st') PosInf \<and>
        (\<forall>y \<in> set pre. js_lt (bestError ?st') (?e y) \<or> ?e y = NaN) \<and>
        (\<forall>y \<in> set post. \<not> js_lt (?e y) (bestError ?st')))"
  proof (cases "js_lt (?e x) (bestError st)")
    case better: True
    have fin: "js_lt (?e x) PosInf"
      using better Cons.prems by (auto intro: js_lt_trans)
    have "\<forall>y \<in> set cands. js_lt (?e x) (?e y) \<or> ?e y = NaN"
    proof
      fix y assume y: "y \<in> set cands"
      from Cons.prems show "js_lt (?e x) (?e y) \<or> ?e y = NaN"
      proof
        assume "bestError st = PosInf \<and> bestRate st = r0 \<and>
          (\<forall>z \<in> set cands. \<not> js_lt (?e z) PosInf)"
        with y have "\<not> js_lt (?e y) PosInf" by blast
        with fin show ?thesis by (rule js_lt_not_below)
      next
        assume "\<exists>pre post. cands = pre @ bestRate st # post \<and>
          bestError st = ?e (bestRate st) \<and> js_lt (bestError st) PosInf \<and>
          (\<forall>z \<in> set pre. js_lt (bestError st) (?e z) \<or> ?e z = NaN) \<and>
          (\<forall>z \<in> set post. \<not> js_lt (?e z) (bestError st))"
        then obtain pre post where c: "cands = pre @ bestRate st # post"
          and be: "bestError st = ?e (bestRate st)"
          and pre: "\<forall>z \<in> set pre. js_lt (bestError st) (?e z) \<or> ?e z = NaN"
          and post: "\<forall>z \<in> set post. \<not> js_lt (?e z) (bestError st)"
          by blast
        from y c have "y \<in> set pre \<or> y = bestRate st \<or> y \<in> set post" by auto
        then show ?thesis
        proof (elim disjE)
          assume "y \<in> set pre"
          with pre have "js_lt (bestError st) (?e y) \<or> ?e y = NaN" by blast
          with better show ?thesis by (auto intro: js_lt_trans)
        next
          assume "y = bestRate st"
          with better be show ?thesis by simp
        next
          assume "y \<in> set post"
          with post have "\<not> js_lt (?e y) (bestError st)" by blast
          with better show ?thesis by (rule js_lt_not_below)
        qed
      qed
    qed
    with better fin show ?thesis
      by (intro disjI2 exI [of _ cands] exI [of _ "[]"]) simp
  next
    case worse: False
    from Cons.prems show ?thesis
    proof
      assume "bestError st = PosInf \<and> bestRate st = r0 \<and>
        (\<forall>z \<in> set cands. \<not> js_lt (?e z) PosInf)"
      with worse show ?thesis by (intro disjI1) simp
    next
      assume "\<exists>pre post. cands = pre @ bestRate st # post \<and>
        bestError st = ?e (bestRate st) \<and> js_lt (bestError st) PosInf \<and>
        (\<forall>z \<in> set pre. js_lt (bestError st) (?e z) \<or> ?e z = NaN) \<and>
        (\<forall>z \<in> set post. \<not> js_lt (?e z) (bestError st))"
      then obtain pre post where c: "cands = pre @ bestRate st # post"
        and be: "bestError st = ?e (bestRate st)"
        and fin: "js_lt (bestError st) PosInf"
        and pre: "\<forall>z \<in> set pre. js_lt (bestError st) (?e z) \<or> ?e z = NaN"
        and post: "\<forall>z \<in> set post. \<not> js_lt (?e z) (bestError st)"
        by blast
      from worse c be fin pre post show ?thesis
        by (intro disjI2 exI [of _ pre] exI [of _ "post @ [x]"]) simp
    qed
  qed
  from Cons.IH [OF inv] show ?case
    unfolding step by simp
qed

lemma optimize_scan:
  assumes g: "testRates = Some g"
  shows "\<exists>res. optimizeContinuousRate pat pk b t T = Some res \<and>
      map rate (allResults res) = g \<and>
      ((opt_error res = PosInf \<and> optimalRate res = 1 \<and>
        (\<forall>x \<in> set g.
           \<not> js_lt (js_abs (js_sub (simulateBolusAndContinuous_js pat pk b x T) t)) PosInf)) \<or>
       (\<exists>pre post. g = pre @ optimalRate res # post \<and>
          opt_error res =
            js_abs (js_sub (simulateBolusAndContinuous_js pat pk b (optimalRate res) T) t) \<and>
          js_lt (opt_error res) PosInf \<and>
          (\<forall>x \<in> set pre.
             js_lt (opt_error res)
               (js_abs (js_sub (simulateBolusAndContinuous_js pat pk b x T) t))
             \<or> js_abs (js_sub (simulateBolusAndContinuous_js pat pk b x T) t) = NaN) \<and>
          (\<forall>x \<in> set post.
             \<not> js_lt (js_abs (js_sub (simulateBolusAndContinuous_js pat pk b x T) t))
                  (opt_error res))))"
proof -
  let ?init = "\<lparr>bestRate = 1.0, bestError = PosInf, optimizationResults = []\<rparr>"
  let ?final = "scan_rates pat pk b t T g ?init"
  let ?res = "\<lparr>optimalRate = bestRate ?final,
      predictedCe = simulateBolusAndContinuous_js pat pk b (bestRate ?final) T,
      opt_error = bestError ?final,
      opt_relativeError = js_mul (js_div (bestError ?final) t) (Num 100),
      allResults = optimizationResults ?final\<rparr>"
  have res: "optimizeContinuousRate pat pk b t T = Some ?res"
    by (simp add: optimizeContinuousRate_def g Let_def)
  have tab: "map rate (allResults ?res) = g"
    by (simp add: scan_rates_results)
  have "(bestError ?init = PosInf \<and> bestRate ?init = 1 \<and>
      (\<forall>x \<in> set [].
         \<not> js_lt (js_abs (js_sub (simulateBolusAndContinuous_js pat pk b x T) t)) PosInf)) \<or>
     (\<exists>pre post. [] = pre @ bestRate ?init # post \<and>
        bestError ?init =
          js_abs (js_sub (simulateBolusAndContinuous_js pat pk b (bestRate ?init) T) t) \<and>
        js_lt (bestError ?init) PosInf \<and>
        (\<forall>x \<in> set pre.
           js_lt (bestError ?init)
             (js_abs (js_sub (simulateBolusAndContinuous_js pat pk b x T) t))
           \<or> js_abs (js_sub (simulateBolusAndContinuous_js pat pk b x T) t) = NaN) \<and>
        (\<forall>x \<in> set post.
           \<not> js_lt (js_abs (js_sub (simulateBolusAndContinuous_js pat pk b x T) t))
                (bestError ?init)))"
    by simp
  from scan_rates_leftmost [OF this, of g] res tab show ?thesis
    by simp
qed

section \<open>Evaluating the small run\<close>

text \<open>
  The trajectory does not feed back into the other variables, so they can be evaluated
  with the trajectory dropped after every pass.
\<close>

lemma step_trim:
  "(protocol_step pat pk tp i st)\<lparr>timeSeriesData := []\<rparr> =
   (protocol_step pat pk tp i (st\<lparr>timeSeriesData := []\<rparr>))\<lparr>timeSeriesData := []\<rparr>"
  by (simp add: protocol_step_def apply_reduction_def reduction_due_def Let_def)

lemma loop_trim_Suc:
  "(protocol_loop pat pk b r tp (Suc n))\<lparr>timeSeriesData := []\<rparr> =
   (protocol_step pat pk tp n ((protocol_loop pat pk b r tp n)\<lparr>timeSeriesData := []\<rparr>))
     \<lparr>timeSeriesData := []\<rparr>"
  by (simp add: step_trim [symmetric])

lemmas eval_defs =
  protocol_step_def protocol_init_def apply_reduction_def reduction_due_def
  calculateBolusInitialState_def updateSystemStateRK4_def derivatives_def
  getK10_def getK12_def getK21_def getK13_def getK31_def
  consts_defs numSteps_eq Let_def demo_patient_def demo_pk_def demo_params_def

lemma demo_loop_52:
  "dosageAdjustments ((protocol_loop demo_patient demo_pk 2 1 demo_params 52)
     \<lparr>timeSeriesData := []\<rparr>) =
   [\<lparr>eventTime = 1/10, oldRate = 1, newRate = 7/10, ceAtEvent = 21/10,
     reductionPercent = 30, sequenceNumber = 1\<rparr>,
    \<lparr>eventTime = 51/10, oldRate = 7/10, newRate = 49/100, ceAtEvent = 563/100,
     reductionPercent = 30, sequenceNumber = 2\<rparr>]"
  apply (simp add: eval_nat_numeral loop_trim_Suc del: protocol_loop.simps(2))
  apply (simp add: eval_defs)
  done

lemma demo_events:
  "\<exists>ys. resultAdjustments (simulateCompleteProtocol demo_patient demo_pk 2 1 demo_params) =
     \<lparr>eventTime = 1/10, oldRate = 1, newRate = 7/10, ceAtEvent = 21/10,
       reductionPercent = 30, sequenceNumber = 1\<rparr> #
     \<lparr>eventTime = 51/10, oldRate = 7/10, newRate = 49/100, ceAtEvent = 563/100,
       reductionPercent = 30, sequenceNumber = 2\<rparr> # ys"
proof -
  have "(52::nat) \<le> numSteps" by (simp add: numSteps_eq)
  from loop_events_prefix [OF this, of demo_patient demo_pk 2 1 demo_params] demo_loop_52
  show ?thesis by (simp add: simulateCompleteProtocol_def Let_def)
qed

lemma demo_first_passes:
  "currentCe (protocol_loop demo_patient demo_pk 2 1 demo_params (Suc 0)) = 0"
  "currentCe (protocol_loop demo_patient demo_pk 2 1 demo_params (Suc (Suc 0))) = 21/10"
  "currentRate (protocol_loop demo_patient demo_pk 2 1 demo_params (Suc 0)) = 1"
  "currentRate (protocol_loop demo_patient demo_pk 2 1 demo_params (Suc (Suc 0))) = 7/10"
  by (simp_all add: eval_defs)

text \<open>
  Variants of the run: a factor of 2, a factor of 1, and a start at 4 mg/kg/hr with the
  factor 2.
\<close>

lemma demo_steep_event:
  "dosageAdjustments (protocol_loop demo_patient demo_pk 2 1
      (demo_params\<lparr>reductionFactor := 2\<rparr>) (Suc (Suc 0))) =
   [\<lparr>eventTime = 1/10, oldRate = 1, newRate = 2, ceAtEvent = 21/10,
     reductionPercent = - 100, sequenceNumber = 1\<rparr>]"
  by (simp add: eval_defs)

lemma demo_flat_event:
  "dosageAdjustments (protocol_loop demo_patient demo_pk 2 1
      (demo_params\<lparr>reductionFactor := 1\<rparr>) (Suc (Suc 0))) =
   [\<lparr>eventTime = 1/10, oldRate = 1, newRate = 1, ceAtEvent = 21/10,
     reductionPercent = 0, sequenceNumber = 1\<rparr>]"
  "currentRate (protocol_loop demo_patient demo_pk 2 1
      (demo_params\<lparr>reductionFactor := 1\<rparr>) (Suc (Suc 0))) = 1"
  by (simp_all add: eval_defs)

lemma demo_doubled_event:
  "dosageAdjustments (protocol_loop demo_patient demo_pk 2 4
      (demo_params\<lparr>reductionFactor := 2\<rparr>) (Suc (Suc 0))) =
   [\<lparr>eventTime = 1/10, oldRate = 4, newRate = 8, ceAtEvent = 12/5,
     reductionPercent = - 100, sequenceNumber = 1\<rparr>]"
  "currentRate (protocol_loop demo_patient demo_pk 2 4
      (demo_params\<lparr>reductionFactor := 2\<rparr>) (Suc 0)) = 4"
  "currentRate (protocol_loop demo_patient demo_pk 2 4
      (demo_params\<lparr>reductionFactor := 2\<rparr>) (Suc (Suc 0))) = 8"
  by (simp_all add: eval_defs)

section \<open>The length of the trajectory\<close>

text \<open>
  C5. \<open>simulateCompleteProtocol\<close> is a total function (its loop runs over the indices below
  \<open>numSteps\<close>); the number of passes is \<open>floor(180 / 0.1) + 1 = 1801\<close>, in exact
  arithmetic and also when the quotient is the binary64 one (it rounds to 1800); the
  trajectory it returns has exactly 1801 samples, and the sample of index \<open>i\<close> is the one
  of time \<open>i * 0.1\<close>, for every patient, parameter set, bolus dose, initial rate and
  threshold parameters.
\<close>

theorem simulation_has_1801_samples:
  "numSteps = 1801 \<and>
   nat \<lfloor>b64_div (b64_round SIMULATION_DURATION) (b64_round TIME_STEP)\<rfloor> + 1 = 1801 \<and>
   length (resultSeries (simulateCompleteProtocol pat pk b r tp)) = 1801 \<and>
   map time (resultSeries (simulateCompleteProtocol pat pk b r tp)) =
     map (\<lambda>i. real i * TIME_STEP) [0..<1801]"
  using loop_series_length [of pat pk b r tp numSteps]
    loop_series_times [of pat pk b r tp numSteps]
  by (simp add: simulateCompleteProtocol_def Let_def numSteps_eq SIMULATION_DURATION_def
      TIME_STEP_def b64_div_def b64_round_def b64_half_even_def)

section \<open>The rate optimizer\<close>




text \<open>
  C4. The grid is built by adding the step to the running rate in binary64 while the rate
  is at most 4.0. The scan therefore has 37 candidates, not 38: it starts at the double
  0.3, its last candidate is 3.900000000000002, the next sum is 4.000000000000002, which
  fails the bound test, and 4.0 is not among the candidates.
\<close>

theorem candidate_grid_stops_short_of_maximum:
  "map_option length testRates = Some 37 \<and>
   map_option hd testRates = Some (b64_round OPTIMIZATION_MIN_RATE) \<and>
   map_option last testRates = Some (1097752409171559 / 281474976710656) \<and>
   map_option (\<lambda>g. b64_round OPTIMIZATION_MAX_RATE \<in> set g) testRates = Some False \<and>
   b64_add (1097752409171559 / 281474976710656) (b64_round OPTIMIZATION_STEP) =
     2251799813685249 / 562949953421312 \<and>
   b64_round OPTIMIZATION_MAX_RATE < 2251799813685249 / 562949953421312"
  unfolding testRates_value
  by (simp add: OPTIMIZATION_MIN_RATE_def OPTIMIZATION_MAX_RATE_def OPTIMIZATION_STEP_def
      b64_defs)

section \<open>The adjustment log\<close>

text \<open>
  C2. In the result of \<open>simulateCompleteProtocol\<close> the adjustment events are strictly
  increasing in time, their sequence numbers are 1, 2, 3, ... in order, and two consecutive
  events are never less than 5.0 minutes apart. The interval timer starts at minus the
  minimum interval, so the first sample whose effect-site concentration reaches the upper
  threshold (with an initial rate above the minimum) is the time of the first event.
\<close>

theorem adjustment_log_debounced:
  fixes pat pk b r tp
  defines "res \<equiv> simulateCompleteProtocol pat pk b r tp"
  shows "sorted_wrt (\<lambda>x y. eventTime x < eventTime y) (resultAdjustments res) \<and>
    map sequenceNumber (resultAdjustments res) = [1..<Suc (length (resultAdjustments res))] \<and>
    (\<forall>k. Suc k < length (resultAdjustments res) \<longrightarrow>
       \<not> eventTime (resultAdjustments res ! Suc k) - eventTime (resultAdjustments res ! k) < 5) \<and>
    lastAdjustmentTime (protocol_init pk b r) = - minimumInterval \<and>
    (\<forall>i<numSteps.
       MIN_INFUSION_RATE < r \<and>
       targetCe tp * upperThresholdRatio tp \<le> ce (resultSeries res ! i) \<and>
       (\<forall>j<i. ce (resultSeries res ! j) < targetCe tp * upperThresholdRatio tp) \<longrightarrow>
       resultAdjustments res \<noteq> [] \<and>
       eventTime (hd (resultAdjustments res)) = real i * TIME_STEP)"
proof -
  let ?L = "protocol_loop pat pk b r tp"
  let ?ev = "dosageAdjustments (?L numSteps)"
  have ev: "resultAdjustments res = ?ev"
    and ser: "resultSeries res = timeSeriesData (?L numSteps)"
    by (simp_all add: res_def simulateCompleteProtocol_def Let_def)
  have spaced: "sorted_wrt (\<lambda>x y. minimumInterval \<le> eventTime y - eventTime x) ?ev"
    by (rule loop_events_spaced)
  have 1: "sorted_wrt (\<lambda>x y. eventTime x < eventTime y) ?ev"
    by (rule sorted_wrt_mono_rel [OF _ spaced]) (simp add: minimumInterval_def)
  have 2: "map sequenceNumber ?ev = [1..<Suc (length ?ev)]"
    by (rule loop_sequence_numbers)
  have 3: "\<not> eventTime (?ev ! Suc k) - eventTime (?ev ! k) < 5" if "Suc k < length ?ev" for k
  proof -
    from spaced that have "minimumInterval \<le> eventTime (?ev ! Suc k) - eventTime (?ev ! k)"
      by (simp add: sorted_wrt_iff_nth_less)
    then show ?thesis by (simp add: minimumInterval_def)
  qed
  have 4: "lastAdjustmentTime (protocol_init pk b r) = - minimumInterval"
    by (simp add: protocol_init_def Let_def)
  have 5: "?ev \<noteq> [] \<and> eventTime (hd ?ev) = real i * TIME_STEP"
    if i: "i < numSteps" and rate: "MIN_INFUSION_RATE < r"
      and cross: "targetCe tp * upperThresholdRatio tp
                    \<le> ce (timeSeriesData (?L numSteps) ! i)"
      and below: "\<forall>j<i. ce (timeSeriesData (?L numSteps) ! j)
                          < targetCe tp * upperThresholdRatio tp"
    for i
  proof -
    have "\<forall>j<i. currentCe (?L (Suc j)) < targetCe tp * upperThresholdRatio tp"
      using below i by (simp add: loop_series_nth)
    then have quiet: "dosageAdjustments (?L i) = []"
      by (rule loop_quiet_below_threshold)
    have "targetCe tp * upperThresholdRatio tp \<le> currentCe (?L (Suc i))"
      using cross i by (simp add: loop_series_nth)
    from loop_first_crossing [OF quiet this rate]
    obtain e where e: "dosageAdjustments (?L (Suc i)) = [e]" "eventTime e = real i * TIME_STEP"
      by blast
    from i have "Suc i \<le> numSteps" by simp
    from loop_events_prefix [OF this, of pat pk b r tp] e
    obtain ys where "?ev = e # ys" by auto
    with e show ?thesis by simp
  qed
  show ?thesis
    unfolding ev ser using 1 2 3 4 5 by blast
qed

text \<open>
  In the small run the first two events are at 0.1 and 5.1 minutes: exactly the minimum
  interval apart, the first one at the first sample above the threshold.
\<close>

theorem adjustment_log_debounced_witness:
  "eventTime (resultAdjustments (simulateCompleteProtocol demo_patient demo_pk 2 1 demo_params) ! 0)
     < eventTime (resultAdjustments (simulateCompleteProtocol demo_patient demo_pk 2 1 demo_params) ! 1) \<and>
   \<not> eventTime (resultAdjustments (simulateCompleteProtocol demo_patient demo_pk 2 1 demo_params) ! Suc 0)
       - eventTime (resultAdjustments (simulateCompleteProtocol demo_patient demo_pk 2 1 demo_params) ! 0)
       < 5 \<and>
   take 2 (map sequenceNumber
      (resultAdjustments (simulateCompleteProtocol demo_patient demo_pk 2 1 demo_params))) = [1, 2] \<and>
   eventTime (hd (resultAdjustments (simulateCompleteProtocol demo_patient demo_pk 2 1 demo_params)))
     = real 1 * TIME_STEP"
proof -
  let ?res = "simulateCompleteProtocol demo_patient demo_pk 2 1 demo_params"
  note inst = adjustment_log_debounced [of demo_patient demo_pk 2 1 demo_params]
  from demo_events obtain ys where ev: "resultAdjustments ?res =
     \<lparr>eventTime = 1/10, oldRate = 1, newRate = 7/10, ceAtEvent = 21/10,
       reductionPercent = 30, sequenceNumber = 1\<rparr> #
     \<lparr>eventTime = 51/10, oldRate = 7/10, newRate = 49/100, ceAtEvent = 563/100,
       reductionPercent = 30, sequenceNumber = 2\<rparr> # ys"
    by blast
  have len: "Suc 0 < length (resultAdjustments ?res)"
    by (simp add: ev)
  have gap: "\<not> eventTime (resultAdjustments ?res ! Suc 0) - eventTime (resultAdjustments ?res ! 0) < 5"
    using inst len by blast
  have ser: "resultSeries ?res =
      timeSeriesData (protocol_loop demo_patient demo_pk 2 1 demo_params numSteps)"
    by (simp add: simulateCompleteProtocol_def Let_def)
  have one: "(1::nat) < numSteps" by (simp add: numSteps_eq)
  have zero: "(0::nat) < numSteps" by (simp add: numSteps_eq)
  have rate: "MIN_INFUSION_RATE < (1::real)" by (simp add: MIN_INFUSION_RATE_def)
  have thr: "targetCe demo_params * upperThresholdRatio demo_params = 6/5"
    by (simp add: demo_params_def)
  have ce1: "ce (resultSeries ?res ! 1) = 21/10"
    unfolding ser loop_series_nth [OF one]
    by (simp add: demo_first_passes del: protocol_loop.simps)
  have ce0: "ce (resultSeries ?res ! 0) = 0"
    unfolding ser loop_series_nth [OF zero]
    by (simp add: demo_first_passes del: protocol_loop.simps)
  have cross: "targetCe demo_params * upperThresholdRatio demo_params \<le> ce (resultSeries ?res ! 1)"
    unfolding thr ce1 by simp
  have below: "\<forall>j<1. ce (resultSeries ?res ! j)
      < targetCe demo_params * upperThresholdRatio demo_params"
    unfolding thr using ce0 by simp
  have first: "eventTime (hd (resultAdjustments ?res)) = real 1 * TIME_STEP"
    using inst one rate cross below by blast
  have nums: "take 2 (map sequenceNumber (resultAdjustments ?res)) = [1, 2]"
    by (simp add: ev)
  have incr: "eventTime (resultAdjustments ?res ! 0) < eventTime (resultAdjustments ?res ! 1)"
    by (simp add: ev)
  show ?thesis
    using incr gap nums first by simp
qed

section \<open>The rates of the adjustments\<close>

text \<open>
  C3, amended. For every adjustment event of \<open>simulateCompleteProtocol\<close>,
  \<open>newRate = max(MIN_INFUSION_RATE, oldRate * reductionFactor)\<close>; the first event starts
  from the initial rate and each later event's \<open>oldRate\<close> is the previous event's
  \<open>newRate\<close>. When the reduction factor is at most 1, no event has \<open>newRate\<close> above
  \<open>oldRate\<close> and the sequence of rates, from the initial rate on, is non-increasing.
\<close>

theorem adjustment_rates_chain:
  fixes pat pk b r tp
  defines "ev \<equiv> resultAdjustments (simulateCompleteProtocol pat pk b r tp)"
  shows "(\<forall>e \<in> set ev. newRate e = max MIN_INFUSION_RATE (oldRate e * reductionFactor tp)) \<and>
    map oldRate ev = butlast (r # map newRate ev) \<and>
    (\<forall>k. Suc k < length ev \<longrightarrow> oldRate (ev ! Suc k) = newRate (ev ! k)) \<and>
    (reductionFactor tp \<le> 1 \<longrightarrow>
       (\<forall>e \<in> set ev. newRate e \<le> oldRate e) \<and> sorted_wrt (\<ge>) (r # map newRate ev))"
proof -
  let ?L = "protocol_loop pat pk b r tp numSteps"
  have ev: "ev = dosageAdjustments ?L"
    by (simp add: ev_def simulateCompleteProtocol_def Let_def)
  have facts: "\<forall>e \<in> set ev. newRate e = max MIN_INFUSION_RATE (oldRate e * reductionFactor tp)
      \<and> MIN_INFUSION_RATE < oldRate e"
    unfolding ev using loop_event_facts [of pat pk b r tp numSteps] by blast
  have chain: "map oldRate ev = butlast (r # map newRate ev)"
    unfolding ev by (rule loop_old_rates)
  have link: "oldRate (ev ! Suc k) = newRate (ev ! k)" if k: "Suc k < length ev" for k
  proof -
    have "oldRate (ev ! Suc k) = map oldRate ev ! Suc k"
      using k by simp
    also have "\<dots> = butlast (r # map newRate ev) ! Suc k"
      by (simp only: chain)
    also have "\<dots> = (r # map newRate ev) ! Suc k"
      using k by (intro nth_butlast) auto
    also have "\<dots> = newRate (ev ! k)"
      using k by simp
    finally show ?thesis .
  qed
  have down: "(\<forall>e \<in> set ev. newRate e \<le> oldRate e) \<and> sorted_wrt (\<ge>) (r # map newRate ev)"
    if f: "reductionFactor tp \<le> 1"
  proof
    show "\<forall>e \<in> set ev. newRate e \<le> oldRate e"
    proof
      fix e assume "e \<in> set ev"
      with facts have "newRate e = max MIN_INFUSION_RATE (oldRate e * reductionFactor tp)"
        and "MIN_INFUSION_RATE < oldRate e" by blast+
      with reduced_le [OF _ f, of "oldRate e"] show "newRate e \<le> oldRate e" by simp
    qed
    show "sorted_wrt (\<ge>) (r # map newRate ev)"
      unfolding ev using loop_rates_sorted [OF f, of r pat pk b numSteps] by blast
  qed
  show ?thesis
    using facts chain link down by blast
qed

text \<open>
  The claim as stated also holds the rates non-increasing for every run. With a reduction
  factor of 2 the first event of the small run raises the rate from 1 to 2.
\<close>

theorem adjustment_rates_chain_counterexample:
  "oldRate (hd (resultAdjustments (simulateCompleteProtocol demo_patient demo_pk 2 1
      (demo_params\<lparr>reductionFactor := 2\<rparr>)))) = 1 \<and>
   newRate (hd (resultAdjustments (simulateCompleteProtocol demo_patient demo_pk 2 1
      (demo_params\<lparr>reductionFactor := 2\<rparr>)))) = 2 \<and>
   resultAdjustments (simulateCompleteProtocol demo_patient demo_pk 2 1
      (demo_params\<lparr>reductionFactor := 2\<rparr>)) \<noteq> []"
proof -
  have "Suc (Suc 0) \<le> numSteps" by (simp add: numSteps_eq)
  from result_events_prefix [OF this, of demo_patient demo_pk 2 1
      "demo_params\<lparr>reductionFactor := 2\<rparr>"]
  show ?thesis
    unfolding demo_steep_event by auto
qed

text \<open>The first two events of the small run: 1 to 0.7, then 0.7 to 0.49.\<close>

theorem adjustment_rates_chain_witness:
  "newRate (resultAdjustments (simulateCompleteProtocol demo_patient demo_pk 2 1 demo_params) ! 0)
     = max MIN_INFUSION_RATE
         (oldRate (resultAdjustments
            (simulateCompleteProtocol demo_patient demo_pk 2 1 demo_params) ! 0)
          * reductionFactor demo_params) \<and>
   oldRate (resultAdjustments (simulateCompleteProtocol demo_patient demo_pk 2 1 demo_params) ! Suc 0)
     = newRate (resultAdjustments
         (simulateCompleteProtocol demo_patient demo_pk 2 1 demo_params) ! 0) \<and>
   newRate (resultAdjustments (simulateCompleteProtocol demo_patient demo_pk 2 1 demo_params) ! Suc 0)
     \<le> oldRate (resultAdjustments
         (simulateCompleteProtocol demo_patient demo_pk 2 1 demo_params) ! Suc 0) \<and>
   newRate (resultAdjustments (simulateCompleteProtocol demo_patient demo_pk 2 1 demo_params) ! Suc 0)
     = 49/100"
proof -
  let ?ev = "resultAdjustments (simulateCompleteProtocol demo_patient demo_pk 2 1 demo_params)"
  note inst = adjustment_rates_chain [of demo_patient demo_pk 2 1 demo_params]
  from demo_events obtain ys where ev: "?ev =
     \<lparr>eventTime = 1/10, oldRate = 1, newRate = 7/10, ceAtEvent = 21/10,
       reductionPercent = 30, sequenceNumber = 1\<rparr> #
     \<lparr>eventTime = 51/10, oldRate = 7/10, newRate = 49/100, ceAtEvent = 563/100,
       reductionPercent = 30, sequenceNumber = 2\<rparr> # ys"
    by blast
  have len: "Suc 0 < length ?ev" by (simp add: ev)
  then have m0: "?ev ! 0 \<in> set ?ev" and m1: "?ev ! Suc 0 \<in> set ?ev"
    by (simp_all add: ev)
  have f: "reductionFactor demo_params \<le> 1" by (simp add: demo_params_def)
  have "newRate (?ev ! 0) =
      max MIN_INFUSION_RATE (oldRate (?ev ! 0) * reductionFactor demo_params)"
    using inst m0 by blast
  moreover have "oldRate (?ev ! Suc 0) = newRate (?ev ! 0)"
    using inst len by blast
  moreover have "newRate (?ev ! Suc 0) \<le> oldRate (?ev ! Suc 0)"
    using inst f m1 by blast
  moreover have "newRate (?ev ! Suc 0) = 49/100"
    by (simp add: ev)
  ultimately show ?thesis by simp
qed

section \<open>The limits of the infusion rate\<close>

text \<open>
  What the simulator does keep: the rate is raised to \<open>MIN_INFUSION_RATE\<close> whenever it is
  reduced, and a factor of at most 1 never raises it, so a run that starts within the limits
  with such a factor stays within them.
\<close>

lemma rates_stay_within_limits_when_reducing:
  assumes "MIN_INFUSION_RATE \<le> r" and "r \<le> MAX_INFUSION_RATE"
    and "reductionFactor tp \<le> 1"
  shows "(\<forall>s \<in> set (resultSeries (simulateCompleteProtocol pat pk b r tp)).
            MIN_INFUSION_RATE \<le> infusionRate s \<and> infusionRate s \<le> MAX_INFUSION_RATE) \<and>
         (\<forall>e \<in> set (resultAdjustments (simulateCompleteProtocol pat pk b r tp)).
            MIN_INFUSION_RATE \<le> oldRate e \<and> oldRate e \<le> MAX_INFUSION_RATE \<and>
            MIN_INFUSION_RATE \<le> newRate e \<and> newRate e \<le> MAX_INFUSION_RATE)"
proof -
  have bounds: "MIN_INFUSION_RATE \<le> currentRate (protocol_loop pat pk b r tp n) \<and>
      currentRate (protocol_loop pat pk b r tp n) \<le> MAX_INFUSION_RATE" for n
    using loop_rate_lower [OF assms(1), of pat pk b tp n]
      loop_rate_upper [OF assms(3), of pat pk b r n] assms(2)
    by simp
  have samples: "\<forall>s \<in> set (resultSeries (simulateCompleteProtocol pat pk b r tp)).
      MIN_INFUSION_RATE \<le> infusionRate s \<and> infusionRate s \<le> MAX_INFUSION_RATE"
  proof
    fix s assume "s \<in> set (resultSeries (simulateCompleteProtocol pat pk b r tp))"
    then obtain i where i: "i < numSteps"
      and s: "s = resultSeries (simulateCompleteProtocol pat pk b r tp) ! i"
      by (auto simp: in_set_conv_nth result_series_length)
    from result_series_nth [OF i, of pat pk b r tp] s
    have "infusionRate s = currentRate (protocol_loop pat pk b r tp (Suc i))"
      by simp
    with bounds [of "Suc i"]
    show "MIN_INFUSION_RATE \<le> infusionRate s \<and> infusionRate s \<le> MAX_INFUSION_RATE"
      by simp
  qed
  have events: "\<forall>e \<in> set (resultAdjustments (simulateCompleteProtocol pat pk b r tp)).
      MIN_INFUSION_RATE \<le> oldRate e \<and> oldRate e \<le> MAX_INFUSION_RATE \<and>
      MIN_INFUSION_RATE \<le> newRate e \<and> newRate e \<le> MAX_INFUSION_RATE"
  proof
    fix e assume "e \<in> set (resultAdjustments (simulateCompleteProtocol pat pk b r tp))"
    then have "e \<in> set (dosageAdjustments (protocol_loop pat pk b r tp numSteps))"
      by (simp add: simulateCompleteProtocol_def Let_def)
    with loop_event_pass [of pat pk b r tp numSteps]
    obtain i where "oldRate e = currentRate (protocol_loop pat pk b r tp i)"
      and "newRate e = currentRate (protocol_loop pat pk b r tp (Suc i))"
      by blast
    with bounds [of i] bounds [of "Suc i"]
    show "MIN_INFUSION_RATE \<le> oldRate e \<and> oldRate e \<le> MAX_INFUSION_RATE \<and>
      MIN_INFUSION_RATE \<le> newRate e \<and> newRate e \<le> MAX_INFUSION_RATE"
      by simp
  qed
  from samples events show ?thesis by blast
qed

text \<open>
  C6. The claim is that in any run of \<open>simulateCompleteProtocol\<close> every sample's
  \<open>infusionRate\<close> and every event's \<open>oldRate\<close> and \<open>newRate\<close> lie within
  \<open>[MIN_INFUSION_RATE, MAX_INFUSION_RATE] = [0.1, 6.0]\<close>. The code does not keep the upper
  limit: \<open>MAX_INFUSION_RATE\<close> is declared among the safety limits and read nowhere. The
  small run started at 4 mg/kg/hr, within the limits, with the factor 2 (the factor is
  taken from the caller unchecked) has its first event at 0.1 min, from 4 to 8 mg/kg/hr,
  and stores 8 as the \<open>infusionRate\<close> of the sample of that time, above the maximum 6.0.
\<close>

theorem rate_exceeds_declared_maximum:
  "MIN_INFUSION_RATE \<le> (4::real) \<and> (4::real) \<le> MAX_INFUSION_RATE \<and>
   resultInitialRate (simulateCompleteProtocol demo_patient demo_pk 2 4
      (demo_params\<lparr>reductionFactor := 2\<rparr>)) = 4 \<and>
   infusionRate (resultSeries (simulateCompleteProtocol demo_patient demo_pk 2 4
      (demo_params\<lparr>reductionFactor := 2\<rparr>)) ! 0) = 4 \<and>
   (\<exists>ys. resultAdjustments (simulateCompleteProtocol demo_patient demo_pk 2 4
      (demo_params\<lparr>reductionFactor := 2\<rparr>)) =
        \<lparr>eventTime = 1/10, oldRate = 4, newRate = 8, ceAtEvent = 12/5,
          reductionPercent = - 100, sequenceNumber = 1\<rparr> # ys) \<and>
   time (resultSeries (simulateCompleteProtocol demo_patient demo_pk 2 4
      (demo_params\<lparr>reductionFactor := 2\<rparr>)) ! 1) = 1/10 \<and>
   infusionRate (resultSeries (simulateCompleteProtocol demo_patient demo_pk 2 4
      (demo_params\<lparr>reductionFactor := 2\<rparr>)) ! 1) = 8 \<and>
   MAX_INFUSION_RATE < infusionRate (resultSeries (simulateCompleteProtocol demo_patient
      demo_pk 2 4 (demo_params\<lparr>reductionFactor := 2\<rparr>)) ! 1)"
proof -
  let ?tp = "demo_params\<lparr>reductionFactor := 2\<rparr>"
  let ?res = "simulateCompleteProtocol demo_patient demo_pk 2 4 ?tp"
  have lim: "MIN_INFUSION_RATE \<le> (4::real) \<and> (4::real) \<le> MAX_INFUSION_RATE"
    by (simp add: MIN_INFUSION_RATE_def MAX_INFUSION_RATE_def)
  have start: "resultInitialRate ?res = 4"
    by (simp add: simulateCompleteProtocol_def Let_def)
  have "(0::nat) < numSteps" by (simp add: numSteps_eq)
  from result_series_nth [OF this, of demo_patient demo_pk 2 4 ?tp]
  have s0: "infusionRate (resultSeries ?res ! 0) = 4"
    by (simp only: demo_doubled_event)
  have "Suc 0 < numSteps" by (simp add: numSteps_eq)
  from result_series_nth [OF this, of demo_patient demo_pk 2 4 ?tp]
  have s1: "infusionRate (resultSeries ?res ! 1) = 8"
    and t1: "time (resultSeries ?res ! 1) = 1/10"
    by (simp_all only: demo_doubled_event One_nat_def) (simp add: TIME_STEP_def)
  have "Suc (Suc 0) \<le> numSteps" by (simp add: numSteps_eq)
  from result_events_prefix [OF this, of demo_patient demo_pk 2 4 ?tp]
  have ev: "\<exists>ys. resultAdjustments ?res =
        \<lparr>eventTime = 1/10, oldRate = 4, newRate = 8, ceAtEvent = 12/5,
          reductionPercent = - 100, sequenceNumber = 1\<rparr> # ys"
    unfolding demo_doubled_event by simp
  have above: "MAX_INFUSION_RATE < infusionRate (resultSeries ?res ! 1)"
    unfolding s1 by (simp add: MAX_INFUSION_RATE_def)
  from lim start s0 ev t1 s1 above show ?thesis by blast
qed

section \<open>Validation\<close>

text \<open>The patient of the small run is valid; its BMI in binary64 is 20.761245674740486.\<close>

lemma validate_demo_entry:
  "validate demo_entry = \<lparr>isValid = True, errors = []\<rparr>"
  "numeric_patient demo_entry = Some demo_patient"
  by (simp_all add: validate_def numeric_patient_def demo_entry_def demo_patient_def
      getBMI_def js_round_def js_div_def js_mul_def js_trim_def js_whitespace_def
      Let_def b64_defs)

text \<open>
  The three checks come first and in this order; the error of a failing check does not
  depend on the ke0 function or on the overrides. When no check fails, the call returns a
  bundle.
\<close>

lemma checks_in_order:
  "(\<not> isValid (validate pat) \<longrightarrow>
      calculateBolusProtocol k pat b t pp
        = Some (Inl (PatientValidationFailed (errors (validate pat))))) \<and>
   (isValid (validate pat) \<and> (js_lt b (Num 1) \<or> js_lt (Num 15) b) \<longrightarrow>
      calculateBolusProtocol k pat b t pp = Some (Inl BolusDoseOutOfRange)) \<and>
   (isValid (validate pat) \<and> \<not> (js_lt b (Num 1) \<or> js_lt (Num 15) b) \<and>
      (js_lt t (Num 0.5) \<or> js_lt (Num 3) t) \<longrightarrow>
      calculateBolusProtocol k pat b t pp = Some (Inl TargetCeOutOfRange)) \<and>
   (isValid (validate pat) \<and> \<not> (js_lt b (Num 1) \<or> js_lt (Num 15) b) \<and>
      \<not> (js_lt t (Num 0.5) \<or> js_lt (Num 3) t) \<longrightarrow>
      (\<exists>out. calculateBolusProtocol k pat b t pp = Some (Inr out)))"
proof -
  have 1: "calculateBolusProtocol k pat b t pp
        = Some (Inl (PatientValidationFailed (errors (validate pat))))"
    if "\<not> isValid (validate pat)"
    using that by (simp add: calculateBolusProtocol_def Let_def)
  have 2: "calculateBolusProtocol k pat b t pp = Some (Inl BolusDoseOutOfRange)"
    if "isValid (validate pat)" and "js_lt b (Num 1) \<or> js_lt (Num 15) b"
    using that
    by (auto simp: calculateBolusProtocol_def Let_def MIN_BOLUS_DOSE_def MAX_BOLUS_DOSE_def)
  have 3: "calculateBolusProtocol k pat b t pp = Some (Inl TargetCeOutOfRange)"
    if "isValid (validate pat)" and "\<not> (js_lt b (Num 1) \<or> js_lt (Num 15) b)"
      and "js_lt t (Num 0.5) \<or> js_lt (Num 3) t"
    using that
    by (auto simp: calculateBolusProtocol_def Let_def MIN_BOLUS_DOSE_def MAX_BOLUS_DOSE_def)
  have 4: "\<exists>out. calculateBolusProtocol k pat b t pp = Some (Inr out)"
    if v: "isValid (validate pat)" and d: "\<not> (js_lt b (Num 1) \<or> js_lt (Num 15) b)"
      and c: "\<not> (js_lt t (Num 0.5) \<or> js_lt (Num 3) t)"
  proof -
    obtain g where g: "testRates = Some g"
      using testRates_value by blast
    have opt: "\<exists>res. optimizeContinuousRate p pk x y T = Some res" for p pk x y T
      using optimize_scan [OF g, of p pk x y T] by blast
    show ?thesis
    proof (cases "\<exists>p x y. numeric_patient pat = Some p \<and> b = Num x \<and> t = Num y")
      case True
      then obtain p x y where n: "numeric_patient pat = Some p" "b = Num x" "t = Num y"
        by blast
      obtain res where "optimizeContinuousRate p (calculatePKParameters k p) (Num x) (Num y)
          (case ppTargetReachTime pp of None \<Rightarrow> DEFAULT_TARGET_REACH_TIME | Some T \<Rightarrow> T)
          = Some res"
        using opt by blast
      with v d c n show ?thesis
        by (simp add: calculateBolusProtocol_def Let_def MIN_BOLUS_DOSE_def MAX_BOLUS_DOSE_def)
    next
      case False
      with v d c g show ?thesis
        by (auto simp: calculateBolusProtocol_def Let_def MIN_BOLUS_DOSE_def MAX_BOLUS_DOSE_def
            split: option.splits js_number.splits)
    qed
  qed
  show ?thesis
    using 1 2 3 4 by blast
qed

text \<open>
  On numbers the two range checks are the ones of the claim: a dose below 1 or above 15 and
  a target below 0.5 or above 3.0 are refused, and a valid numeric patient with a dose and
  a target inside the ranges gets the bundle of that dose and target.
\<close>

lemma numbers_in_range_are_accepted:
  assumes "isValid (validate pat)" and "numeric_patient pat = Some p"
    and "1 \<le> b" and "b \<le> 15" and "0.5 \<le> t" and "t \<le> 3"
  shows "\<exists>res. calculateBolusProtocol k pat (Num b) (Num t) pp = Some (Inr (Bundle res)) \<and>
           prBolusDose res = b \<and> prTargetCe res = t"
proof -
  obtain g where g: "testRates = Some g"
    using testRates_value by blast
  obtain res where "optimizeContinuousRate p (calculatePKParameters k p) (Num b) (Num t)
      (case ppTargetReachTime pp of None \<Rightarrow> DEFAULT_TARGET_REACH_TIME | Some T \<Rightarrow> T)
      = Some res"
    using optimize_scan [OF g] by blast
  with assms show ?thesis
    by (simp add: calculateBolusProtocol_def Let_def MIN_BOLUS_DOSE_def MAX_BOLUS_DOSE_def)
qed

lemma numbers_out_of_range_are_refused:
  assumes "isValid (validate pat)"
  shows "b < 1 \<or> 15 < b \<Longrightarrow>
           calculateBolusProtocol k pat (Num b) t pp = Some (Inl BolusDoseOutOfRange)"
    and "1 \<le> b \<Longrightarrow> b \<le> 15 \<Longrightarrow> c < 0.5 \<or> 3 < c \<Longrightarrow>
           calculateBolusProtocol k pat (Num b) (Num c) pp = Some (Inl TargetCeOutOfRange)"
  using assms
  by (auto simp: calculateBolusProtocol_def Let_def MIN_BOLUS_DOSE_def MAX_BOLUS_DOSE_def)

text \<open>
  The BMI is compared as binary64 computes it. For 108.9 kg and 165 cm the quotient of the
  typed values is 40, within the limits; \<open>weight / Math.pow(height / 100, 2)\<close> is
  40.00000000000001, and the patient is refused.
\<close>

lemma validate_rounds_bmi:
  "(108.9 :: real) / (165 / 100)\<^sup>2 = 40"
  "getBMI (demo_entry\<lparr>enteredWeight := js_round (Num 108.9), enteredHeight := Num 165\<rparr>)
     = Num (5629499534213121 / 140737488355328)"
  "validate (demo_entry\<lparr>enteredWeight := js_round (Num 108.9), enteredHeight := Num 165\<rparr>)
     = \<lparr>isValid = False, errors = [BmiOutOfRange]\<rparr>"
  by (simp_all add: validate_def demo_entry_def power2_eq_square
      getBMI_def js_round_def js_div_def js_mul_def js_trim_def js_whitespace_def
      Let_def b64_defs)

text \<open>
  C7. The claim is that \<open>calculateBolusProtocol\<close> throws, before any simulation, whenever
  the patient fails validation, the dose lies outside \<open>[1, 15]\<close> or the target outside
  \<open>[0.5, 3.0]\<close>. The code does not do so for a value that is not a number. Each check has
  the form \<open>x < lo || x > hi\<close>, and both comparisons are false for NaN, which is what
  \<open>parseFloat\<close> returns for an empty field: with the valid patient of the small run, a NaN
  dose with the target 1.0, and the dose 7 mg with a NaN target, pass all three checks,
  and the call returns a bundle instead of throwing, for every ke0 function and all
  overrides. In the same way \<open>validate\<close> reports a patient whose age is NaN as valid.
\<close>

theorem missing_number_passes_validation:
  "calculateBolusProtocol k demo_entry NaN (Num 1) pp = Some (Inr BundleOfNaN) \<and>
   calculateBolusProtocol k demo_entry (Num 7) NaN pp = Some (Inr BundleOfNaN) \<and>
   validate (demo_entry\<lparr>enteredAge := NaN\<rparr>) = \<lparr>isValid = True, errors = []\<rparr>"
proof -
  have 1: "calculateBolusProtocol k demo_entry NaN (Num 1) pp = Some (Inr BundleOfNaN)"
    by (simp add: calculateBolusProtocol_def validate_demo_entry testRates_value Let_def)
  have 2: "calculateBolusProtocol k demo_entry (Num 7) NaN pp = Some (Inr BundleOfNaN)"
    by (simp add: calculateBolusProtocol_def validate_demo_entry testRates_value Let_def
        MIN_BOLUS_DOSE_def MAX_BOLUS_DOSE_def)
  have 3: "validate (demo_entry\<lparr>enteredAge := NaN\<rparr>) = \<lparr>isValid = True, errors = []\<rparr>"
    by (simp add: validate_def demo_entry_def
        getBMI_def js_round_def js_div_def js_mul_def js_trim_def js_whitespace_def
        Let_def b64_defs)
  from 1 2 3 show ?thesis by simp
qed

section \<open>Zero input\<close>

lemma rk4_zero:
  "updateSystemStateRK4 pk \<lparr>a1 = 0, a2 = 0, a3 = 0\<rparr> 0 dt = \<lparr>a1 = 0, a2 = 0, a3 = 0\<rparr>"
  by (simp add: updateSystemStateRK4_def derivatives_def Let_def)

lemma bolus_step_zero:
  "bolus_step pk 0 (\<lparr>a1 = 0, a2 = 0, a3 = 0\<rparr>, 0) = (\<lparr>a1 = 0, a2 = 0, a3 = 0\<rparr>, 0)"
  by (simp add: bolus_step_def rk4_zero Let_def)

lemma bolus_loop_zero:
  "bolus_loop pk 0 n (\<lparr>a1 = 0, a2 = 0, a3 = 0\<rparr>, 0) = (\<lparr>a1 = 0, a2 = 0, a3 = 0\<rparr>, 0)"
  by (induction n) (simp_all add: bolus_step_zero)

lemma step_state:
  "state (protocol_step pat pk tp i st) =
     (if i < numSteps - 1
      then updateSystemStateRK4 pk (state st) ((currentRate st * weight pat) / 60) TIME_STEP
      else state st)"
  by (simp add: protocol_step_def apply_reduction_def Let_def)

lemma loop_zero:
  "state (protocol_loop pat pk 0 0 tp n) = \<lparr>a1 = 0, a2 = 0, a3 = 0\<rparr> \<and>
   currentCe (protocol_loop pat pk 0 0 tp n) = 0 \<and>
   currentRate (protocol_loop pat pk 0 0 tp n) = 0"
proof (induction n)
  case 0
  show ?case by (simp add: protocol_init_def calculateBolusInitialState_def Let_def)
next
  case (Suc n)
  let ?st = "protocol_loop pat pk 0 0 tp n"
  from Suc have st: "state ?st = \<lparr>a1 = 0, a2 = 0, a3 = 0\<rparr>" "currentCe ?st = 0"
    "currentRate ?st = 0"
    by simp_all
  then have "\<not> reduction_due tp (real n * TIME_STEP)
        (?st\<lparr>currentCe := currentCe (protocol_step pat pk tp n ?st)\<rparr>)"
    by (simp add: reduction_due_def MIN_INFUSION_RATE_def)
  from step_when_not_due(1) [OF this] st
  have rate': "currentRate (protocol_step pat pk tp n ?st) = 0" by simp
  have ce': "currentCe (protocol_step pat pk tp n ?st) = 0"
    unfolding step_ce st by simp
  have state': "state (protocol_step pat pk tp n ?st) = \<lparr>a1 = 0, a2 = 0, a3 = 0\<rparr>"
    unfolding step_state st by (simp add: rk4_zero)
  show ?case by (simp add: rate' ce' state')
qed

text \<open>
  C8. With a bolus dose of zero and an infusion rate of zero the state stays exactly zero:
  the initial state is zero, an RK4 step and an effect-site update map the zero state to
  itself, \<open>simulateBolusAndContinuous\<close> returns 0 for every duration, and in
  \<open>simulateCompleteProtocol\<close> the compartment masses and the effect-site concentration
  are zero after every pass, every sample reports zero effect-site and plasma
  concentration, and no adjustment occurs. Stated for parameter sets with nonzero volumes,
  where every quotient of the simulation is defined.
\<close>

theorem zero_input_stays_zero:
  assumes "v1 pk \<noteq> 0" and "v2 pk \<noteq> 0" and "v3 pk \<noteq> 0"
  shows "calculateBolusInitialState pk 0 =
      \<lparr>a1 = 0, a2 = 0, a3 = 0, plasmaConc = 0, effectSiteConc = 0\<rparr> \<and>
    updateSystemStateRK4 pk \<lparr>a1 = 0, a2 = 0, a3 = 0\<rparr> 0 TIME_STEP = \<lparr>a1 = 0, a2 = 0, a3 = 0\<rparr> \<and>
    bolus_step pk 0 (\<lparr>a1 = 0, a2 = 0, a3 = 0\<rparr>, 0) = (\<lparr>a1 = 0, a2 = 0, a3 = 0\<rparr>, 0) \<and>
    simulateBolusAndContinuous pat pk 0 0 T = 0 \<and>
    (\<forall>n. state (protocol_loop pat pk 0 0 tp n) = \<lparr>a1 = 0, a2 = 0, a3 = 0\<rparr> \<and>
         currentCe (protocol_loop pat pk 0 0 tp n) = 0) \<and>
    (\<forall>s \<in> set (resultSeries (simulateCompleteProtocol pat pk 0 0 tp)).
       ce s = 0 \<and> plasma s = 0 \<and> infusionRate s = 0) \<and>
    resultAdjustments (simulateCompleteProtocol pat pk 0 0 tp) = []"
proof -
  have init: "calculateBolusInitialState pk 0 =
      \<lparr>a1 = 0, a2 = 0, a3 = 0, plasmaConc = 0, effectSiteConc = 0\<rparr>"
    by (simp add: calculateBolusInitialState_def Let_def)
  have sim: "simulateBolusAndContinuous pat pk 0 0 T = 0"
    by (simp add: simulateBolusAndContinuous_def init bolus_loop_zero Let_def)
  have samples: "\<forall>s \<in> set (resultSeries (simulateCompleteProtocol pat pk 0 0 tp)).
       ce s = 0 \<and> plasma s = 0 \<and> infusionRate s = 0"
  proof
    fix s assume "s \<in> set (resultSeries (simulateCompleteProtocol pat pk 0 0 tp))"
    then obtain i where i: "i < numSteps"
      and s: "s = resultSeries (simulateCompleteProtocol pat pk 0 0 tp) ! i"
      by (auto simp: in_set_conv_nth result_series_length)
    from result_series_nth [OF i, of pat pk 0 0 tp] s
      loop_zero [of pat pk tp i] loop_zero [of pat pk tp "Suc i"]
    show "ce s = 0 \<and> plasma s = 0 \<and> infusionRate s = 0"
      by (simp del: protocol_loop.simps)
  qed
  have quiet: "dosageAdjustments (protocol_loop pat pk 0 0 tp n) = []" for n
  proof (induction n)
    case 0
    show ?case by (simp add: protocol_init_def Let_def)
  next
    case (Suc n)
    let ?st = "protocol_loop pat pk 0 0 tp n"
    from loop_zero [of pat pk tp n] have "\<not> reduction_due tp (real n * TIME_STEP)
        (?st\<lparr>currentCe := currentCe (protocol_step pat pk tp n ?st)\<rparr>)"
      by (simp add: reduction_due_def MIN_INFUSION_RATE_def)
    from step_when_not_due(2) [OF this] Suc show ?case by simp
  qed
  have none: "resultAdjustments (simulateCompleteProtocol pat pk 0 0 tp) = []"
    by (simp add: simulateCompleteProtocol_def Let_def quiet)
  show ?thesis
    using init rk4_zero bolus_step_zero sim loop_zero [of pat pk tp] samples none
    by (simp del: protocol_loop.simps)
qed

text \<open>
  For the reference parameter set of the documentation (v1 = 3.57, ke0 = 0.12): the last
  sample of the horizon, index 1800.
\<close>

theorem zero_input_stays_zero_witness:
  "v1 \<lparr>v1 = 3.57, v2 = 11.3, v3 = 27.2, cl = 0.401, q2 = 0.3208, q3 = 0.1203, ke0 = 0.12\<rparr> \<noteq> 0 \<and>
   ce (resultSeries (simulateCompleteProtocol demo_patient
        \<lparr>v1 = 3.57, v2 = 11.3, v3 = 27.2, cl = 0.401, q2 = 0.3208, q3 = 0.1203, ke0 = 0.12\<rparr>
        0 0 demo_params) ! 1800) = 0 \<and>
   plasma (resultSeries (simulateCompleteProtocol demo_patient
        \<lparr>v1 = 3.57, v2 = 11.3, v3 = 27.2, cl = 0.401, q2 = 0.3208, q3 = 0.1203, ke0 = 0.12\<rparr>
        0 0 demo_params) ! 1800) = 0 \<and>
   simulateBolusAndContinuous demo_patient
        \<lparr>v1 = 3.57, v2 = 11.3, v3 = 27.2, cl = 0.401, q2 = 0.3208, q3 = 0.1203, ke0 = 0.12\<rparr>
        0 0 20 = 0"
proof -
  let ?pk = "\<lparr>v1 = 3.57, v2 = 11.3, v3 = 27.2, cl = 0.401, q2 = 0.3208, q3 = 0.1203,
     ke0 = 0.12\<rparr> :: pk_parameters"
  let ?res = "simulateCompleteProtocol demo_patient ?pk 0 0 demo_params"
  have vols: "v1 ?pk \<noteq> 0" "v2 ?pk \<noteq> 0" "v3 ?pk \<noteq> 0" by simp_all
  note inst = zero_input_stays_zero [OF vols, of demo_patient 20 demo_params]
  have "resultSeries ?res ! 1800 \<in> set (resultSeries ?res)"
    by (intro nth_mem) (simp add: result_series_length numSteps_eq)
  with inst have "ce (resultSeries ?res ! 1800) = 0" and "plasma (resultSeries ?res ! 1800) = 0"
    by blast+
  moreover from inst have "simulateBolusAndContinuous demo_patient ?pk 0 0 20 = 0"
    by blast
  ultimately show ?thesis by simp
qed

section \<open>What an event records\<close>

text \<open>
  C9. Every adjustment event in the result of \<open>simulateCompleteProtocol\<close> has
  \<open>ceAtEvent\<close> at or above \<open>targetCe * upperThresholdRatio\<close> and \<open>oldRate\<close> strictly
  above the minimum infusion rate; \<open>ceAtEvent\<close> is the effect-site concentration of the
  sample taken in the pass that emitted the event.
\<close>

theorem events_record_trigger_condition:
  "\<forall>e \<in> set (resultAdjustments (simulateCompleteProtocol pat pk b r tp)).
     targetCe tp * upperThresholdRatio tp \<le> ceAtEvent e \<and>
     MIN_INFUSION_RATE < oldRate e \<and>
     (\<exists>i<numSteps. eventTime e = real i * TIME_STEP \<and>
        ce (resultSeries (simulateCompleteProtocol pat pk b r tp) ! i) = ceAtEvent e)"
proof
  fix e assume e: "e \<in> set (resultAdjustments (simulateCompleteProtocol pat pk b r tp))"
  then have e': "e \<in> set (dosageAdjustments (protocol_loop pat pk b r tp numSteps))"
    by (simp add: simulateCompleteProtocol_def Let_def)
  from loop_event_facts [of pat pk b r tp numSteps] e'
  have "targetCe tp * upperThresholdRatio tp \<le> ceAtEvent e" and "MIN_INFUSION_RATE < oldRate e"
    by blast+
  moreover from loop_event_pass [of pat pk b r tp numSteps] e'
  obtain i where "i < numSteps" and "eventTime e = real i * TIME_STEP"
    and "ceAtEvent e = currentCe (protocol_loop pat pk b r tp (Suc i))"
    by blast
  then have "\<exists>i<numSteps. eventTime e = real i * TIME_STEP \<and>
        ce (resultSeries (simulateCompleteProtocol pat pk b r tp) ! i) = ceAtEvent e"
    using result_series_nth [of i pat pk b r tp] by auto
  ultimately show "targetCe tp * upperThresholdRatio tp \<le> ceAtEvent e \<and>
     MIN_INFUSION_RATE < oldRate e \<and>
     (\<exists>i<numSteps. eventTime e = real i * TIME_STEP \<and>
        ce (resultSeries (simulateCompleteProtocol pat pk b r tp) ! i) = ceAtEvent e)"
    by blast
qed

text \<open>The first event of the small run: 2.1 against the threshold 1.2, from the rate 1.\<close>

theorem events_record_trigger_condition_witness:
  "targetCe demo_params * upperThresholdRatio demo_params
     \<le> ceAtEvent (hd (resultAdjustments
          (simulateCompleteProtocol demo_patient demo_pk 2 1 demo_params))) \<and>
   MIN_INFUSION_RATE
     < oldRate (hd (resultAdjustments
          (simulateCompleteProtocol demo_patient demo_pk 2 1 demo_params))) \<and>
   ceAtEvent (hd (resultAdjustments
          (simulateCompleteProtocol demo_patient demo_pk 2 1 demo_params))) = 21/10"
proof -
  let ?res = "simulateCompleteProtocol demo_patient demo_pk 2 1 demo_params"
  from demo_events obtain ys where ev: "resultAdjustments ?res =
     \<lparr>eventTime = 1/10, oldRate = 1, newRate = 7/10, ceAtEvent = 21/10,
       reductionPercent = 30, sequenceNumber = 1\<rparr> #
     \<lparr>eventTime = 51/10, oldRate = 7/10, newRate = 49/100, ceAtEvent = 563/100,
       reductionPercent = 30, sequenceNumber = 2\<rparr> # ys"
    by blast
  then have mem: "hd (resultAdjustments ?res) \<in> set (resultAdjustments ?res)"
    by simp
  from events_record_trigger_condition [of demo_patient demo_pk 2 1 demo_params] mem
  have "targetCe demo_params * upperThresholdRatio demo_params
          \<le> ceAtEvent (hd (resultAdjustments ?res))"
    and "MIN_INFUSION_RATE < oldRate (hd (resultAdjustments ?res))"
    by blast+
  moreover have "ceAtEvent (hd (resultAdjustments ?res)) = 21/10"
    by (simp add: ev)
  ultimately show ?thesis by simp
qed

section \<open>The sample of an adjustment\<close>

text \<open>
  C10, amended. The reduction comes before the sample of its pass is stored: for every
  adjustment event at time \<open>t\<close> there is a sample of time \<open>t\<close>, and a sample of that time
  reports \<open>infusionRate\<close> equal to the event's \<open>newRate\<close>. When the reduction factor is
  not 1, no sample at or after time \<open>t\<close> reports the event's \<open>oldRate\<close>.
\<close>

theorem reduction_precedes_sample:
  fixes pat pk b r tp
  defines "res \<equiv> simulateCompleteProtocol pat pk b r tp"
  shows "\<forall>e \<in> set (resultAdjustments res).
     (\<exists>s \<in> set (resultSeries res). time s = eventTime e) \<and>
     (\<forall>s \<in> set (resultSeries res). time s = eventTime e \<longrightarrow> infusionRate s = newRate e) \<and>
     (reductionFactor tp \<noteq> 1 \<longrightarrow>
        (\<forall>s \<in> set (resultSeries res). eventTime e \<le> time s \<longrightarrow> infusionRate s \<noteq> oldRate e))"
proof
  fix e assume "e \<in> set (resultAdjustments res)"
  then have e: "e \<in> set (dosageAdjustments (protocol_loop pat pk b r tp numSteps))"
    by (simp add: res_def simulateCompleteProtocol_def Let_def)
  from loop_event_pass [of pat pk b r tp numSteps] e
  obtain i where i: "i < numSteps" and ti: "eventTime e = real i * TIME_STEP"
    and new: "newRate e = currentRate (protocol_loop pat pk b r tp (Suc i))"
    by blast
  have nth: "time (resultSeries res ! j) = real j * TIME_STEP \<and>
      infusionRate (resultSeries res ! j) = currentRate (protocol_loop pat pk b r tp (Suc j))"
    if "j < numSteps" for j
    unfolding res_def using result_series_nth [OF that, of pat pk b r tp] by simp
  have len: "length (resultSeries res) = numSteps"
    unfolding res_def by (rule result_series_length)
  have ex: "\<exists>s \<in> set (resultSeries res). time s = eventTime e"
  proof
    show "resultSeries res ! i \<in> set (resultSeries res)"
      using i len by simp
    show "time (resultSeries res ! i) = eventTime e"
      using nth [OF i] ti by simp
  qed
  have same: "\<forall>s \<in> set (resultSeries res). time s = eventTime e \<longrightarrow> infusionRate s = newRate e"
  proof (intro ballI impI)
    fix s assume "s \<in> set (resultSeries res)" and t: "time s = eventTime e"
    then obtain j where j: "j < numSteps" and s: "s = resultSeries res ! j"
      by (auto simp: in_set_conv_nth len)
    from nth [OF j] s t ti have "real j * TIME_STEP = real i * TIME_STEP" by simp
    then have "j = i" by (simp add: TIME_STEP_def)
    with nth [OF j] s new show "infusionRate s = newRate e" by simp
  qed
  have later: "\<forall>s \<in> set (resultSeries res). eventTime e \<le> time s \<longrightarrow> infusionRate s \<noteq> oldRate e"
    if f: "reductionFactor tp \<noteq> 1"
  proof (intro ballI impI)
    fix s assume "s \<in> set (resultSeries res)" and t: "eventTime e \<le> time s"
    then obtain j where j: "j < numSteps" and s: "s = resultSeries res ! j"
      by (auto simp: in_set_conv_nth len)
    from j have "Suc j \<le> numSteps" by simp
    from loop_events_split [OF this, of pat pk b r tp]
    obtain ys where split: "dosageAdjustments (protocol_loop pat pk b r tp numSteps) =
        dosageAdjustments (protocol_loop pat pk b r tp (Suc j)) @ ys"
      and late: "\<forall>x \<in> set ys. real (Suc j) * TIME_STEP \<le> eventTime x"
      by blast
    have "e \<notin> set ys"
    proof
      assume "e \<in> set ys"
      with late have "real (Suc j) * TIME_STEP \<le> eventTime e" by blast
      with t nth [OF j] s show False by (simp add: TIME_STEP_def)
    qed
    with e split have mem: "e \<in> set (dosageAdjustments (protocol_loop pat pk b r tp (Suc j)))"
      by auto
    from f have "reductionFactor tp < 1 \<or> 1 < reductionFactor tp" by auto
    then have "currentRate (protocol_loop pat pk b r tp (Suc j)) \<noteq> oldRate e"
    proof
      assume "reductionFactor tp < 1"
      from loop_old_above [OF this, of pat pk b r "Suc j"] mem show ?thesis by fastforce
    next
      assume "1 < reductionFactor tp"
      from loop_old_below [OF this, of pat pk b r "Suc j"] mem show ?thesis by fastforce
    qed
    with nth [OF j] s show "infusionRate s \<noteq> oldRate e" by simp
  qed
  from ex same later
  show "(\<exists>s \<in> set (resultSeries res). time s = eventTime e) \<and>
     (\<forall>s \<in> set (resultSeries res). time s = eventTime e \<longrightarrow> infusionRate s = newRate e) \<and>
     (reductionFactor tp \<noteq> 1 \<longrightarrow>
        (\<forall>s \<in> set (resultSeries res). eventTime e \<le> time s \<longrightarrow> infusionRate s \<noteq> oldRate e))"
    by blast
qed

text \<open>
  The claim as stated excludes the old rate from every later sample of every run. With a
  reduction factor of 1 the first event of the small run, at 0.1 minutes, keeps the rate
  at 1, and the sample of 0.1 minutes reports 1, the event's \<open>oldRate\<close>.
\<close>

theorem reduction_precedes_sample_counterexample:
  "resultAdjustments (simulateCompleteProtocol demo_patient demo_pk 2 1
      (demo_params\<lparr>reductionFactor := 1\<rparr>)) \<noteq> [] \<and>
   eventTime (hd (resultAdjustments (simulateCompleteProtocol demo_patient demo_pk 2 1
      (demo_params\<lparr>reductionFactor := 1\<rparr>))))
     \<le> time (resultSeries (simulateCompleteProtocol demo_patient demo_pk 2 1
          (demo_params\<lparr>reductionFactor := 1\<rparr>)) ! 1) \<and>
   infusionRate (resultSeries (simulateCompleteProtocol demo_patient demo_pk 2 1
          (demo_params\<lparr>reductionFactor := 1\<rparr>)) ! 1)
     = oldRate (hd (resultAdjustments (simulateCompleteProtocol demo_patient demo_pk 2 1
          (demo_params\<lparr>reductionFactor := 1\<rparr>))))"
proof -
  let ?tp = "demo_params\<lparr>reductionFactor := 1\<rparr>"
  let ?res = "simulateCompleteProtocol demo_patient demo_pk 2 1 ?tp"
  have "Suc (Suc 0) \<le> numSteps" by (simp add: numSteps_eq)
  from result_events_prefix [OF this, of demo_patient demo_pk 2 1 ?tp]
  obtain ys where ev: "resultAdjustments ?res =
      \<lparr>eventTime = 1/10, oldRate = 1, newRate = 1, ceAtEvent = 21/10,
        reductionPercent = 0, sequenceNumber = 1\<rparr> # ys"
    unfolding demo_flat_event by auto
  have "(1::nat) < numSteps" by (simp add: numSteps_eq)
  from result_series_nth [OF this, of demo_patient demo_pk 2 1 ?tp]
  have "time (resultSeries ?res ! 1) = 1/10" and "infusionRate (resultSeries ?res ! 1) = 1"
    by (simp_all add: demo_flat_event TIME_STEP_def del: protocol_loop.simps)
  with ev show ?thesis by simp
qed

text \<open>
  In the small run the event at 0.1 minutes lowers the rate from 1 to 0.7, and the sample
  of 0.1 minutes reports 0.7.
\<close>

theorem reduction_precedes_sample_witness:
  "time (resultSeries (simulateCompleteProtocol demo_patient demo_pk 2 1 demo_params) ! 1)
     = eventTime (hd (resultAdjustments
         (simulateCompleteProtocol demo_patient demo_pk 2 1 demo_params))) \<and>
   infusionRate (resultSeries (simulateCompleteProtocol demo_patient demo_pk 2 1 demo_params) ! 1)
     = newRate (hd (resultAdjustments
         (simulateCompleteProtocol demo_patient demo_pk 2 1 demo_params))) \<and>
   infusionRate (resultSeries (simulateCompleteProtocol demo_patient demo_pk 2 1 demo_params) ! 1)
     \<noteq> oldRate (hd (resultAdjustments
         (simulateCompleteProtocol demo_patient demo_pk 2 1 demo_params))) \<and>
   newRate (hd (resultAdjustments
         (simulateCompleteProtocol demo_patient demo_pk 2 1 demo_params))) = 7/10"
proof -
  let ?res = "simulateCompleteProtocol demo_patient demo_pk 2 1 demo_params"
  note inst = reduction_precedes_sample [of demo_patient demo_pk 2 1 demo_params]
  from demo_events obtain ys where ev: "resultAdjustments ?res =
     \<lparr>eventTime = 1/10, oldRate = 1, newRate = 7/10, ceAtEvent = 21/10,
       reductionPercent = 30, sequenceNumber = 1\<rparr> #
     \<lparr>eventTime = 51/10, oldRate = 7/10, newRate = 49/100, ceAtEvent = 563/100,
       reductionPercent = 30, sequenceNumber = 2\<rparr> # ys"
    by blast
  then have mem: "hd (resultAdjustments ?res) \<in> set (resultAdjustments ?res)"
    by simp
  have one: "(1::nat) < numSteps" by (simp add: numSteps_eq)
  then have smem: "resultSeries ?res ! 1 \<in> set (resultSeries ?res)"
    by (simp add: result_series_length)
  have t: "time (resultSeries ?res ! 1) = eventTime (hd (resultAdjustments ?res))"
    using result_series_nth [OF one, of demo_patient demo_pk 2 1 demo_params]
    by (simp add: ev TIME_STEP_def del: protocol_loop.simps)
  have f: "reductionFactor demo_params \<noteq> 1" by (simp add: demo_params_def)
  have "infusionRate (resultSeries ?res ! 1) = newRate (hd (resultAdjustments ?res))"
    using inst mem smem t by blast
  moreover have "infusionRate (resultSeries ?res ! 1) \<noteq> oldRate (hd (resultAdjustments ?res))"
    using inst mem smem t f by (metis order_refl)
  moreover have "newRate (hd (resultAdjustments ?res)) = 7/10"
    by (simp add: ev)
  ultimately show ?thesis using t by simp
qed

end
